theory Spec2Isabelle
  imports Main
begin

section \<open>Errors\<close>

text \<open>
  Go error values as they occur in \<open>cmd/review.go\<close>. \<open>SkipDir\<close> and \<open>SkipAll\<close> are the
  sentinels of \<open>io/fs\<close>; \<open>IOError\<close> is an error handed back by a collaborator (file
  system, tree-sitter, template engine, URL parser, chat client), which the collaborator
  describes by a message and which is never one of the sentinels; \<open>Wrapped\<close> is
  \<open>fmt.Errorf("<prefix>: %w", err)\<close> and \<open>Failure\<close> is \<open>fmt.Errorf\<close> with a message and no
  wrapped error. \<open>Panic\<close> is a run-time panic (a slice expression out
  of range, a nil directory entry): nothing in the program recovers from it, so it unwinds
  through every caller like an error that nobody handles.
\<close>

type_synonym ioerr = string

datatype error =
    SkipDir
  | SkipAll
  | IOError ioerr
  | Wrapped string error
  | Failure string
  | Panic

section \<open>Language registry\<close>

datatype language = Python | Java | Cpp | Golang

text \<open>The table \<open>langConfig\<close>: extension to grammar and function node type.\<close>

definition langConfig :: "string \<Rightarrow> (language \<times> string) option" where
  "langConfig ext =
     (if ext = ''.py'' then Some (Python, ''function_definition'')
      else if ext = ''.java'' then Some (Java, ''method_declaration'')
      else if ext = ''.cpp'' then Some (Cpp, ''function_definition'')
      else if ext = ''.hpp'' then Some (Cpp, ''function_definition'')
      else if ext = ''.h'' then Some (Cpp, ''function_definition'')
      else if ext = ''.go'' then Some (Golang, ''function_declaration'')
      else None)"

section \<open>Syntax trees and the function extractor\<close>

text \<open>
  A tree-sitter node: its type, whether it is a named node, its byte span and all its
  children in document order. \<open>NamedChild(0)\<close> followed by \<open>NextNamedSibling()\<close> enumerates
  the children that are named, in that order.
\<close>

datatype node = Node (ntype: string) (isNamed: bool) (startByte: nat) (endByte: nat)
  (children: "node list")

text \<open>
  The slice expression \<open>src[a:b]\<close>. Go panics unless \<open>a \<le> b \<le> cap(src)\<close>; the capacity of
  the buffer is taken to be its length.
\<close>

definition slice :: "string \<Rightarrow> nat \<Rightarrow> nat \<Rightarrow> string option" where
  "slice src a b = (if a \<le> b \<and> b \<le> length src then Some (take (b - a) (drop a src)) else None)"

text \<open>
  The closure \<open>walk\<close> of \<open>extractFunctions\<close>, with the captured slice \<open>chunks\<close> passed
  explicitly; \<open>None\<close> is a panic. \<open>walkNamed\<close> is its \<open>for\<close> loop over the named children.
\<close>

fun walk :: "string \<Rightarrow> string \<Rightarrow> node \<Rightarrow> string list \<Rightarrow> string list option"
  and walkNamed :: "string \<Rightarrow> string \<Rightarrow> node list \<Rightarrow> string list \<Rightarrow> string list option"
where
  "walk src nodeType (Node t nm s e cs) chunks =
     (if t = nodeType
      then (case slice src s e of
              None \<Rightarrow> None
            | Some c \<Rightarrow> walkNamed src nodeType cs (chunks @ [c]))
      else walkNamed src nodeType cs chunks)"
| "walkNamed src nodeType [] chunks = Some chunks"
| "walkNamed src nodeType (c # cs) chunks =
     (if isNamed c
      then (case walk src nodeType c chunks of
              None \<Rightarrow> None
            | Some chunks' \<Rightarrow> walkNamed src nodeType cs chunks')
      else walkNamed src nodeType cs chunks)"

text \<open>
  \<open>extractFunctions\<close>: the parser is a collaborator (\<open>parse lang src\<close> is the root node of
  the tree or the parser's error).
\<close>

definition extractFunctions ::
  "(language \<Rightarrow> string \<Rightarrow> ioerr + node) \<Rightarrow> string \<Rightarrow> language \<Rightarrow> string \<Rightarrow> error + string list"
where
  "extractFunctions parse src lang nodeType =
     (case parse lang src of
        Inl err \<Rightarrow> Inl (Wrapped ''parse source'' (IOError err))
      | Inr root \<Rightarrow>
          (case walk src nodeType root [] of
             None \<Rightarrow> Inl Panic
           | Some chunks \<Rightarrow> Inr chunks))"

section \<open>Paths and formatting\<close>

text \<open>
  \<open>filepath.Ext\<close>: scan backwards from the end of the path, stop at a separator, return
  the suffix starting at the first dot met; \<open>extScan\<close> is that loop on the reversed path.
\<close>

fun extScan :: "string \<Rightarrow> string \<Rightarrow> string" where
  "extScan [] acc = []"
| "extScan (c # rs) acc =
     (if c = CHR ''/'' then []
      else if c = CHR ''.'' then c # acc
      else extScan rs (c # acc))"

definition Ext :: "string \<Rightarrow> string" where
  "Ext path = extScan (rev path) []"

text \<open>\<open>strings.TrimPrefix\<close>.\<close>

definition TrimPrefix :: "string \<Rightarrow> string \<Rightarrow> string" where
  "TrimPrefix s p = (if take (length p) s = p then drop (length p) s else s)"

text \<open>
  \<open>filepath.Clean\<close> and \<open>filepath.Join\<close> (Unix separators), element by element: empty
  elements and \<open>.\<close> are dropped, \<open>..\<close> removes the element before it when there is one
  that is not itself \<open>..\<close>, is dropped at the top of a rooted path and kept otherwise; the
  empty result is \<open>.\<close>.
\<close>

fun splitSep :: "string \<Rightarrow> string \<Rightarrow> string list" where
  "splitSep [] cur = [cur]"
| "splitSep (c # cs) cur =
     (if c = CHR ''/'' then cur # splitSep cs [] else splitSep cs (cur @ [c]))"

fun joinSep :: "string list \<Rightarrow> string" where
  "joinSep [] = []"
| "joinSep [e] = e"
| "joinSep (e # es) = e @ ''/'' @ joinSep es"

fun cleanElems :: "bool \<Rightarrow> string list \<Rightarrow> string list \<Rightarrow> string list" where
  "cleanElems rooted [] out = out"
| "cleanElems rooted (e # es) out =
     (if e = [] \<or> e = ''.'' then cleanElems rooted es out
      else if e = ''..'' then
        (if out \<noteq> [] \<and> last out \<noteq> ''..'' then cleanElems rooted es (butlast out)
         else if \<not> rooted then cleanElems rooted es (out @ [''..''])
         else cleanElems rooted es out)
      else cleanElems rooted es (out @ [e]))"

definition Clean :: "string \<Rightarrow> string" where
  "Clean path =
     (if path = [] then ''.''
      else
        (let rooted = (hd path = CHR ''/'');
             out = cleanElems rooted (splitSep path []) []
         in if rooted then CHR ''/'' # joinSep out
            else if out = [] then ''.''
            else joinSep out))"

definition Join :: "string \<Rightarrow> string \<Rightarrow> string" where
  "Join a b =
     (if a \<noteq> [] then Clean (a @ ''/'' @ b)
      else if b \<noteq> [] then Clean b
      else [])"

text \<open>The verb \<open>%d\<close> of \<open>fmt\<close> on a non-negative integer.\<close>

fun itoa :: "nat \<Rightarrow> string" where
  "itoa n = (if n < 10 then [char_of (48 + n)] else itoa (n div 10) @ [char_of (48 + n mod 10)])"

declare itoa.simps [simp del]

definition nl :: char where
  "nl = CHR 0x0A"

text \<open>\<open>fmt.Sprintf("## %s (chunk %d/%d)\n\n%s\n\n---\n", path, i+1, len(chunks), res)\<close>\<close>

definition fmtSection :: "string \<Rightarrow> nat \<Rightarrow> nat \<Rightarrow> string \<Rightarrow> string" where
  "fmtSection path i n res =
     ''## '' @ path @ '' (chunk '' @ itoa i @ ''/'' @ itoa n @ '')'' @ [nl, nl] @ res
       @ [nl, nl] @ ''---'' @ [nl]"

definition reportTitle :: string where
  "reportTitle = ''# Code Review Report'' @ [nl, nl]"

section \<open>Collaborators and run state\<close>

text \<open>
  A directory entry as \<open>filepath.WalkDir\<close> sees it: a non-directory with its name, or a
  directory with its name, the error of \<open>os.ReadDir\<close> on it (if any) and the entries
  \<open>os.ReadDir\<close> returned, in the order returned.
\<close>

datatype entry = File string | Dir string "ioerr option" "entry list"

fun ename :: "entry \<Rightarrow> string" where
  "ename (File n) = n"
| "ename (Dir n re ds) = n"

fun isDir :: "entry \<Rightarrow> bool" where
  "isDir (File n) = False"
| "isDir (Dir n re ds) = True"

datatype logmsg =
    ReadError string error
  | ParseError string error
  | ReviewError string nat error
  | PullStatus string

text \<open>
  What the run has done so far: the slice \<open>report\<close>, the lines given to \<open>log.Printf\<close> and
  to standard output, the template files loaded, the endpoints given to \<open>url.Parse\<close>, the
  chat requests sent (base URL, model, prompt), the errors the walker handed to the
  callback, and the calls of \<open>os.WriteFile\<close> (path, data, permissions).
\<close>

record state =
  report :: "string list"
  logs :: "logmsg list"
  stdout :: "string list"
  tmplLoads :: "string list"
  urlParses :: "string list"
  chatCalls :: "(string \<times> string \<times> string) list"
  walkErrs :: "error list"
  writes :: "(string \<times> string \<times> nat) list"

definition initState :: state where
  "initState = \<lparr>report = [], logs = [], stdout = [], tmplLoads = [], urlParses = [],
     chatCalls = [],
     walkErrs = [], writes = []\<rparr>"

text \<open>
  The configuration values read through viper and the collaborators of the pipeline.
  The template engine and the chat client may answer differently from one call to the
  next, so they are indexed by the number of calls made before. \<open>os.WriteFile\<close> creates
  or truncates the file it is given.
\<close>

record 't env =
  cfgModel :: string
  cfgExclude :: "string list"
  cfgGuideline :: string
  cfgOllamaHost :: string
  lstat :: "string \<Rightarrow> ioerr + entry"
  readFile :: "string \<Rightarrow> ioerr + string"
  parse :: "language \<Rightarrow> string \<Rightarrow> ioerr + node"
  urlParse :: "string \<Rightarrow> ioerr + string"
  parseFiles :: "nat \<Rightarrow> string \<Rightarrow> ioerr + 't"
  execute :: "'t \<Rightarrow> (string \<times> string) list \<Rightarrow> ioerr + string"
  chat :: "nat \<Rightarrow> string \<Rightarrow> string \<Rightarrow> string \<Rightarrow> string list \<times> ioerr option"
  writeFile :: "string \<Rightarrow> string \<Rightarrow> ioerr option"

section \<open>Prompt builder and review dispatcher\<close>

definition buildPrompt ::
  "'t env \<Rightarrow> string \<Rightarrow> string \<Rightarrow> string \<Rightarrow> state \<Rightarrow> (error + string) \<times> state"
where
  "buildPrompt env tmplPath lang code s =
     (let s1 = s\<lparr>tmplLoads := tmplLoads s @ [tmplPath]\<rparr> in
      case parseFiles env (length (tmplLoads s)) tmplPath of
        Inl err \<Rightarrow> (Inl (Wrapped ''parse template'' (IOError err)), s1)
      | Inr tmpl \<Rightarrow>
          (case execute env tmpl [(''lang'', lang), (''code'', code)] of
             Inl err \<Rightarrow> (Inl (Wrapped ''execute template'' (IOError err)), s1)
           | Inr out \<Rightarrow> (Inr out, s1)))"

text \<open>
  \<open>reviewChunk\<close>: the callback appends every fragment to \<open>outBuf\<close>; the buffer is returned
  only when \<open>Chat\<close> returns no error.
\<close>

definition reviewChunk ::
  "'t env \<Rightarrow> string \<Rightarrow> string \<Rightarrow> string \<Rightarrow> string \<Rightarrow> string \<Rightarrow> state \<Rightarrow> (error + string) \<times> state"
where
  "reviewChunk env client mdl guideline lang code s =
     (case buildPrompt env guideline lang code s of
        (Inl err, s1) \<Rightarrow> (Inl err, s1)
      | (Inr prompt, s1) \<Rightarrow>
          (let s2 = s1\<lparr>chatCalls := chatCalls s1 @ [(client, mdl, prompt)]\<rparr> in
           case chat env (length (chatCalls s1)) client mdl prompt of
             (frags, Some err) \<Rightarrow> (Inl (IOError err), s2)
           | (frags, None) \<Rightarrow> (Inr (concat frags), s2)))"

text \<open>
  The loop \<open>for i, chunk := range chunks\<close> of the callback: \<open>n\<close> is \<open>len(chunks)\<close>, \<open>i\<close> the
  index of the first chunk of the remaining list.
\<close>

fun reviewChunks ::
  "'t env \<Rightarrow> string \<Rightarrow> string \<Rightarrow> string \<Rightarrow> nat \<Rightarrow> nat \<Rightarrow> string list \<Rightarrow> state \<Rightarrow> state"
where
  "reviewChunks env client path ext n i [] s = s"
| "reviewChunks env client path ext n i (chunk # rest) s =
     (case reviewChunk env client (cfgModel env) (cfgGuideline env) (TrimPrefix ext ''.'') chunk s of
        (Inl err, s1) \<Rightarrow>
          reviewChunks env client path ext n (i + 1) rest
            (s1\<lparr>logs := logs s1 @ [ReviewError path (i + 1) err]\<rparr>)
      | (Inr res, s1) \<Rightarrow>
          reviewChunks env client path ext n (i + 1) rest
            (s1\<lparr>stdout := stdout s1 @ [res],
                report := report s1 @ [fmtSection path (i + 1) n res]\<rparr>))"

section \<open>Directory walker\<close>

definition rootDir :: string where
  "rootDir = ''.''"

text \<open>
  The callback \<open>walkFn\<close> of \<open>Review\<close>. The walker passes no entry only together with an
  error; calling \<open>d.IsDir()\<close> on a nil entry would panic. \<open>rootDir\<close> is the local
  constant the callback compares the path with. The set \<open>ignoreDirs\<close> is the set of the
  configured names. An error received from the walker is returned as it is, and noted
  in \<open>walkErrs\<close>; the endpoint is noted in \<open>urlParses\<close> when it is parsed.
\<close>

definition walkFn ::
  "'t env \<Rightarrow> state \<Rightarrow> string \<Rightarrow> entry option \<Rightarrow> error option \<Rightarrow> error option \<times> state"
where
  "walkFn env s path d err =
     (case err of
        Some e \<Rightarrow> (Some e, s\<lparr>walkErrs := walkErrs s @ [e]\<rparr>)
      | None \<Rightarrow>
     (case d of
        None \<Rightarrow> (Some Panic, s)
      | Some d \<Rightarrow>
     (if isDir d
      then (if ename d \<in> set (cfgExclude env) \<and> path \<noteq> rootDir
            then (Some SkipDir, s)
            else (None, s))
      else
     (let ext = Ext path in
      case langConfig ext of
        None \<Rightarrow> (None, s)
      | Some (lang, nodeType) \<Rightarrow>
     (case readFile env path of
        Inl e \<Rightarrow> (None, s\<lparr>logs := logs s @ [ReadError path (IOError e)]\<rparr>)
      | Inr src \<Rightarrow>
     (case extractFunctions (parse env) src lang nodeType of
        Inl e \<Rightarrow>
          (if e = Panic then (Some Panic, s)
           else (None, s\<lparr>logs := logs s @ [ParseError path e]\<rparr>))
      | Inr chunks \<Rightarrow>
     (if length chunks = 0 then (None, s)
      else
     (let s1 = s\<lparr>urlParses := urlParses s @ [cfgOllamaHost env]\<rparr> in
      case urlParse env (cfgOllamaHost env) of
        Inl e \<Rightarrow> (Some (Wrapped ''parse OLLAMA_HOST'' (IOError e)), s1)
      | Inr baseURL \<Rightarrow>
          (None, reviewChunks env baseURL path ext (length chunks) 0 chunks s1)))))))))"

text \<open>
  \<open>filepath.WalkDir\<close> of the Go standard library (\<open>path/filepath\<close>, with \<open>SkipAll\<close> as
  since Go 1.20), for any callback and any state the callback threads: the root is
  inspected with \<open>os.Lstat\<close>, whose error goes to the callback without an entry; \<open>walkDir\<close> visits one entry, \<open>walkDirs\<close> is its loop over the entries
  of a directory. \<open>SkipDir\<close> returned for a directory skips that directory; returned for
  a non-directory it ends the loop over the remaining entries of the parent; any other
  error ends the walk.
\<close>

fun walkDir ::
    "('s \<Rightarrow> string \<Rightarrow> entry option \<Rightarrow> error option \<Rightarrow> error option \<times> 's) \<Rightarrow>
     string \<Rightarrow> entry \<Rightarrow> 's \<Rightarrow> error option \<times> 's"
  and walkDirs ::
    "('s \<Rightarrow> string \<Rightarrow> entry option \<Rightarrow> error option \<Rightarrow> error option \<times> 's) \<Rightarrow>
     string \<Rightarrow> entry list \<Rightarrow> 's \<Rightarrow> error option \<times> 's"
where
  "walkDir fn path (File n) s = fn s path (Some (File n)) None"
| "walkDir fn path (Dir n rerr ds) s =
     (case fn s path (Some (Dir n rerr ds)) None of
        (Some err, s1) \<Rightarrow> (if err = SkipDir then (None, s1) else (Some err, s1))
      | (None, s1) \<Rightarrow>
          (case rerr of
             None \<Rightarrow> walkDirs fn path ds s1
           | Some re \<Rightarrow>
               (case fn s1 path (Some (Dir n rerr ds)) (Some (IOError re)) of
                  (Some err, s2) \<Rightarrow> (if err = SkipDir then (None, s2) else (Some err, s2))
                | (None, s2) \<Rightarrow> walkDirs fn path ds s2)))"
| "walkDirs fn path [] s = (None, s)"
| "walkDirs fn path (d1 # ds) s =
     (case walkDir fn (Join path (ename d1)) d1 s of
        (Some err, s1) \<Rightarrow> (if err = SkipDir then (None, s1) else (Some err, s1))
      | (None, s1) \<Rightarrow> walkDirs fn path ds s1)"

definition WalkDir ::
  "(string \<Rightarrow> ioerr + entry) \<Rightarrow> string \<Rightarrow>
   ('s \<Rightarrow> string \<Rightarrow> entry option \<Rightarrow> error option \<Rightarrow> error option \<times> 's) \<Rightarrow> 's \<Rightarrow> error option \<times> 's"
where
  "WalkDir lst root fn s =
     (case (case lst root of
              Inl err \<Rightarrow> fn s root None (Some (IOError err))
            | Inr d \<Rightarrow> walkDir fn root d s) of
        (Some err, s1) \<Rightarrow> (if err = SkipDir \<or> err = SkipAll then (None, s1) else (Some err, s1))
      | (None, s1) \<Rightarrow> (None, s1))"

section \<open>Review\<close>

text \<open>
  \<open>Review\<close>: the walk starts with an empty report; the report is written only when the
  walk returns no error, with permissions \<open>0644\<close>.
\<close>

definition Review :: "'t env \<Rightarrow> string \<Rightarrow> string \<Rightarrow> error option \<times> state" where
  "Review env repoRoot outFile =
     (case WalkDir (lstat env) repoRoot (walkFn env) initState of
        (Some err, s) \<Rightarrow> (Some err, s)
      | (None, s) \<Rightarrow>
          (let doc = reportTitle @ concat (report s);
               s1 = s\<lparr>writes := writes s @ [(outFile, doc, 420)]\<rparr>
           in case writeFile env outFile doc of
                Some err \<Rightarrow> (Some (Wrapped ''write report'' (IOError err)), s1)
              | None \<Rightarrow> (None, s1\<lparr>stdout := stdout s1 @ [''Review completed: '' @ outFile @ [nl]]\<rparr>)))"

section \<open>The command\<close>

text \<open>
  What the root command adds to the configuration: the output path, the two flags naming
  what to review, and the collaborators of \<open>ensureModel\<close>: the list of model names the
  backend at a base URL has (or the error of the request), the word \<open>fmt.Scanln\<close> reads
  from the terminal, and the pull of a model, which reports a sequence of status lines
  and returns an error or none.
\<close>

record cli =
  cfgOutput :: string
  repository :: string
  source :: string
  listModels :: "string \<Rightarrow> ioerr + string list"
  answer :: string
  pull :: "string \<Rightarrow> string \<Rightarrow> string list \<times> ioerr option"

text \<open>
  \<open>ensureModel\<close>, with the run state passed along for the prompt it prints and the status
  lines it logs. The word read by \<open>fmt.Scanln\<close> holds no space, so trimming leaves it as
  it is, and its lower-case form is \<open>y\<close> exactly for \<open>y\<close> and \<open>Y\<close>.
\<close>

definition ensureModel :: "'t env \<Rightarrow> cli \<Rightarrow> state \<Rightarrow> error option \<times> state" where
  "ensureModel env c s =
     (if cfgModel env = [] then (Some (Failure ''model is not specified''), s)
      else
     (case urlParse env (cfgOllamaHost env) of
        Inl e \<Rightarrow> (Some (Wrapped ''parse OllamaHost'' (IOError e)), s)
      | Inr baseURL \<Rightarrow>
     (case listModels c baseURL of
        Inl e \<Rightarrow> (Some (Wrapped ''list models'' (IOError e)), s)
      | Inr names \<Rightarrow>
     (if cfgModel env \<in> set names then (None, s)
      else
     (let s1 = s\<lparr>stdout := stdout s @ [''Model '' @ cfgModel env @ '' not found. Pull now? [y/N]: '']\<rparr>
      in if \<not> (answer c = ''y'' \<or> answer c = ''Y'')
         then (Some (Failure (''required model '' @ cfgModel env @ '' not available'')), s1)
         else
           (case pull c baseURL (cfgModel env) of
              (statuses, err) \<Rightarrow>
                (let s2 = s1\<lparr>logs := logs s1 @ map PullStatus (filter (\<lambda>st. st \<noteq> []) statuses)\<rparr>
                 in case err of
                      Some e \<Rightarrow> (Some (Wrapped ''pull model'' (IOError e)), s2)
                    | None \<Rightarrow> (None, s2))))))))"

text \<open>
  The \<open>Run\<close> function of the root command. \<open>cobra.CheckErr\<close> prints an error and exits
  with status 1, so the command ends with that error and nothing after it is run. The
  result is the error the command ends with, if any, and what the run has done: the
  prompt and the status lines of \<open>ensureModel\<close>, followed by what \<open>Review\<close> did.
\<close>

definition runCmd :: "'t env \<Rightarrow> cli \<Rightarrow> error option \<times> state" where
  "runCmd env c =
     (case ensureModel env c initState of
        (Some err, s0) \<Rightarrow> (Some err, s0)
      | (None, s0) \<Rightarrow>
          (case (if source c \<noteq> [] then Review env (source c) (cfgOutput c)
                 else Review env (repository c) (cfgOutput c)) of
             (r, s) \<Rightarrow> (r, s\<lparr>stdout := stdout s0 @ stdout s, logs := logs s0 @ logs s\<rparr>)))"

section \<open>Notions used to state the properties\<close>

text \<open>
  The run state in which the loop of the callback reviews the chunk at position \<open>k\<close>
  (counted from 0) of the chunks of a file, which is the state the loop has reached after
  the \<open>k\<close> chunks before it, and what \<open>reviewChunk\<close> returns for that chunk there.
\<close>

definition stateBefore ::
  "'t env \<Rightarrow> string \<Rightarrow> string \<Rightarrow> string \<Rightarrow> string list \<Rightarrow> state \<Rightarrow> nat \<Rightarrow> state"
where
  "stateBefore env client path ext chunks s k =
     reviewChunks env client path ext (length chunks) 0 (take k chunks) s"

definition outcome ::
  "'t env \<Rightarrow> string \<Rightarrow> string \<Rightarrow> string \<Rightarrow> string list \<Rightarrow> state \<Rightarrow> nat \<Rightarrow> error + string"
where
  "outcome env client path ext chunks s k =
     fst (reviewChunk env client (cfgModel env) (cfgGuideline env) (TrimPrefix ext ''.'')
            (chunks ! k) (stateBefore env client path ext chunks s k))"

text \<open>The number a string of decimal digits denotes.\<close>

definition decimalValue :: "string \<Rightarrow> nat" where
  "decimalValue ds = foldl (\<lambda>a c. 10 * a + (of_char c - 48)) 0 ds"

text \<open>
  Depth-first pre-order over the named nodes below a node (the node itself first), and
  the nodes of the function node type among them.
\<close>

fun preorder :: "node \<Rightarrow> node list"
  and preorderNamed :: "node list \<Rightarrow> node list"
where
  "preorder (Node t nm s e cs) = Node t nm s e cs # preorderNamed cs"
| "preorderNamed [] = []"
| "preorderNamed (c # cs) = (if isNamed c then preorder c else []) @ preorderNamed cs"

definition matched :: "string \<Rightarrow> node \<Rightarrow> node list" where
  "matched nodeType root = filter (\<lambda>m. ntype m = nodeType) (preorder root)"

definition spanText :: "string \<Rightarrow> node \<Rightarrow> string" where
  "spanText src m = take (endByte m - startByte m) (drop (startByte m) src)"

text \<open>
  The shape of the trees a parser delivers: every span lies inside the span of the
  parent (the root's inside the source), and the children of a node follow each other
  without overlap.
\<close>

fun wfNode :: "nat \<Rightarrow> nat \<Rightarrow> node \<Rightarrow> bool"
  and wfNodes :: "nat \<Rightarrow> nat \<Rightarrow> node list \<Rightarrow> bool"
where
  "wfNode lo hi (Node t nm s e cs) = (lo \<le> s \<and> s \<le> e \<and> e \<le> hi \<and> wfNodes s e cs)"
| "wfNodes lo hi [] = True"
| "wfNodes lo hi (c # cs) = (wfNode lo hi c \<and> wfNodes (endByte c) hi cs)"

definition wfTree :: "string \<Rightarrow> node \<Rightarrow> bool" where
  "wfTree src root = wfNode 0 (length src) root"

text \<open>
  What one call of the callback, and so the whole walk, does to the run state: no file is
  written, and the state gains an entry in \<open>walkErrs\<close> only together with the return of
  that error.
\<close>

definition relErrs :: "state \<Rightarrow> error option \<Rightarrow> state \<Rightarrow> bool" where
  "relErrs s r s' =
     (writes s' = writes s \<and>
      (walkErrs s' = walkErrs s \<or>
       (\<exists>m. walkErrs s' = walkErrs s @ [IOError m] \<and> r = Some (IOError m))))"

text \<open>With an endpoint that does not parse: the endpoint is parsed only when the walk ends
  with that error.\<close>

definition relUrl :: "string \<Rightarrow> state \<Rightarrow> error option \<Rightarrow> state \<Rightarrow> bool" where
  "relUrl m s r s' =
     (urlParses s' = urlParses s \<or> r = Some (Wrapped ''parse OLLAMA_HOST'' (IOError m)))"

text \<open>The report only grows, and by sections.\<close>

definition isSection :: "string \<Rightarrow> bool" where
  "isSection sec = (\<exists>path i n res. sec = fmtSection path i n res \<and> 1 \<le> i \<and> i \<le> n)"

definition relReport :: "state \<Rightarrow> error option \<Rightarrow> state \<Rightarrow> bool" where
  "relReport s r s' = (\<exists>new. report s' = report s @ new \<and> (\<forall>sec\<in>set new. isSection sec))"

section \<open>A sample repository\<close>

text \<open>
  A Python file with a function \<open>f\<close> that contains a function \<open>g\<close>, followed by a function
  \<open>h\<close>, and the tree the Python grammar gives for it (tokens such as \<open>def\<close> and \<open>:\<close> are
  unnamed nodes).
\<close>

definition exSrc :: string where
  "exSrc = ''def f():'' @ [nl] @ '' def g():'' @ [nl] @ ''  pass'' @ [nl]
     @ ''def h():'' @ [nl] @ '' pass'' @ [nl]"

definition exInner :: node where
  "exInner =
     Node ''function_definition'' True 10 25
       [Node ''def'' False 10 13 [], Node ''identifier'' True 14 15 [],
        Node ''parameters'' True 15 17 [], Node '':'' False 17 18 [],
        Node ''block'' True 21 25 [Node ''pass_statement'' True 21 25 []]]"

definition exOuter :: node where
  "exOuter =
     Node ''function_definition'' True 0 25
       [Node ''def'' False 0 3 [], Node ''identifier'' True 4 5 [],
        Node ''parameters'' True 5 7 [], Node '':'' False 7 8 [],
        Node ''block'' True 10 25 [exInner]]"

definition exLast :: node where
  "exLast =
     Node ''function_definition'' True 26 40
       [Node ''def'' False 26 29 [], Node ''identifier'' True 30 31 [],
        Node ''parameters'' True 31 33 [], Node '':'' False 33 34 [],
        Node ''block'' True 36 40 [Node ''pass_statement'' True 36 40 []]]"

definition exTree :: node where
  "exTree = Node ''module'' True 0 41 [exOuter, exLast]"

definition exF :: string where
  "exF = ''def f():'' @ [nl] @ '' def g():'' @ [nl] @ ''  pass''"

definition exG :: string where
  "exG = ''def g():'' @ [nl] @ ''  pass''"

definition exH :: string where
  "exH = ''def h():'' @ [nl] @ '' pass''"

text \<open>A C header without any function definition, and its tree.\<close>

definition exHdr :: string where
  "exHdr = ''int x;'' @ [nl]"

definition exHdrTree :: node where
  "exHdrTree =
     Node ''translation_unit'' True 0 7
       [Node ''declaration'' True 0 6
          [Node ''primitive_type'' True 0 3 [], Node ''identifier'' True 4 5 [],
           Node '';'' False 5 6 []]]"

text \<open>
  Collaborators for the sample: every \<open>.py\<close> and every \<open>.java\<close> file holds the Python
  text above, every \<open>.h\<close> file the header, and no other file can be read; the parser gives
  up on anything but the Python text as Python and the header as C++; one endpoint parses; the template engine and the chat client fail at the
  calls selected by \<open>tmplFails\<close> and \<open>chatFails\<close>, and the chat client delivers the fragment
  \<open>LG\<close> before it fails.
\<close>

definition exEnv ::
  "string list \<Rightarrow> (string \<Rightarrow> ioerr + entry) \<Rightarrow> string \<Rightarrow> (nat \<Rightarrow> bool) \<Rightarrow> (nat \<Rightarrow> bool) \<Rightarrow> unit env"
where
  "exEnv excl lst host tmplFails chatFails =
     \<lparr>cfgModel = ''llama3'', cfgExclude = excl, cfgGuideline = ''guidelines.md'',
      cfgOllamaHost = host,
      lstat = lst,
      readFile = (\<lambda>p. if Ext p = ''.py'' \<or> Ext p = ''.java'' then Inr exSrc
                     else if Ext p = ''.h'' then Inr exHdr
                     else Inl ''permission denied''),
      parse = (\<lambda>l src. if l = Python \<and> src = exSrc then Inr exTree
                         else if l = Cpp \<and> src = exHdr then Inr exHdrTree
                         else Inl ''operation limit was hit''),
      urlParse = (\<lambda>u. if u = ''http://localhost:11434'' then Inr u
                      else Inl ''missing protocol scheme''),
      parseFiles = (\<lambda>k p. if tmplFails k then Inl ''no such file or directory'' else Inr ()),
      execute = (\<lambda>t d. case (map_of d ''lang'', map_of d ''code'') of
                        (Some l, Some c) \<Rightarrow> Inr (''Review this '' @ l @ '' code: '' @ c)
                      | _ \<Rightarrow> Inl ''no value''),
      chat = (\<lambda>k c m p. if chatFails k then ([''LG''], Some ''connection reset'')
                        else ([''LG'', ''TM''], None)),
      writeFile = (\<lambda>p d. None)\<rparr>"

text \<open>
  The same collaborators, with a template that renders as the language tag, a colon and
  the code, and a chat client that answers \<open>ok\<close> followed by the prompt it was sent.
\<close>

definition exEchoEnv ::
  "string list \<Rightarrow> (string \<Rightarrow> ioerr + entry) \<Rightarrow> string \<Rightarrow> (nat \<Rightarrow> bool) \<Rightarrow> (nat \<Rightarrow> bool) \<Rightarrow> unit env"
where
  "exEchoEnv excl lst host tmplFails chatFails =
     (exEnv excl lst host tmplFails chatFails)
       \<lparr>execute := (\<lambda>t d. case (map_of d ''lang'', map_of d ''code'') of
                          (Some l, Some c) \<Rightarrow> Inr (l @ '':'' @ c)
                        | _ \<Rightarrow> Inl ''no value''),
        chat := (\<lambda>k c m p. if chatFails k then ([''ok ''], Some ''connection reset'')
                           else ([''ok '', p], None))\<rparr>"

text \<open>A command line for the sample: review the current directory, the model is there.\<close>

definition exCli :: cli where
  "exCli =
     \<lparr>cfgOutput = ''review.md'', repository = ''.'', source = [],
      listModels = (\<lambda>u. Inr [''llama3'']), answer = ''n'',
      pull = (\<lambda>u m. ([''pulling manifest'', ''success''], None))\<rparr>"

definition exLstat :: "string \<Rightarrow> entry \<Rightarrow> string \<Rightarrow> ioerr + entry" where
  "exLstat root d p = (if p = root then Inr d else Inl ''no such file or directory'')"

definition exHost :: string where
  "exHost = ''http://localhost:11434''"

definition never :: "nat \<Rightarrow> bool" where
  "never k = False"

definition firstCall :: "nat \<Rightarrow> bool" where
  "firstCall k = (k = 0)"

definition secondCall :: "nat \<Rightarrow> bool" where
  "secondCall k = (k = 1)"

text \<open>The sample repositories.\<close>

definition exRepo :: "string \<Rightarrow> entry" where
  "exRepo name = Dir name None [File ''a.py'', File ''notes.txt'']"

definition exRepoVendored :: entry where
  "exRepoVendored =
     Dir ''.'' None [File ''a.py'', Dir ''vendor'' None [File ''v.py''], File ''notes.txt'']"

definition exRepoLocked :: entry where
  "exRepoLocked =
     Dir ''.'' None [File ''a.py'', Dir ''locked'' (Some ''permission denied'') [], File ''z.py'']"

definition exRepoTwo :: entry where
  "exRepoTwo = Dir ''.'' None [File ''a.py'', File ''b.py'']"

definition exRepoNoCode :: entry where
  "exRepoNoCode = Dir ''.'' None [File ''notes.txt'', File ''x.h'']"

section \<open>The extractor\<close>

lemma walk_chunks:
  "hi \<le> length src \<Longrightarrow> wfNode lo hi n \<Longrightarrow>
     walk src nt n acc = Some (acc @ map (spanText src) (filter (\<lambda>m. ntype m = nt) (preorder n)))"
  "hi \<le> length src \<Longrightarrow> wfNodes lo hi cs \<Longrightarrow>
     walkNamed src nt cs acc = Some (acc @ map (spanText src) (filter (\<lambda>m. ntype m = nt) (preorderNamed cs)))"
proof (induction src nt n acc and src nt cs acc arbitrary: lo hi and lo hi rule: walk_walkNamed.induct)
  case (1 src nodeType t nm s e cs chunks)
  from "1.prems" have b: "s \<le> e" "e \<le> length src" and w: "wfNodes s e cs" by auto
  from b have sl: "slice src s e = Some (take (e - s) (drop s src))" by (simp add: slice_def)
  show ?case
  proof (cases "t = nodeType")
    case True
    from "1.IH"(1) [OF True sl b(2) w] True sl show ?thesis
      by (simp add: spanText_def)
  next
    case False
    from "1.IH"(2) [OF False b(2) w] False show ?thesis by simp
  qed
next
  case (2 src nodeType chunks)
  then show ?case by simp
next
  case (3 src nodeType c cs chunks)
  from "3.prems" have wc: "wfNode lo hi c" and ws: "wfNodes (endByte c) hi cs" by auto
  show ?case
  proof (cases "isNamed c")
    case True
    from "3.IH"(1) [OF True "3.prems"(1) wc]
    have h: "walk src nodeType c chunks =
       Some (chunks @ map (spanText src) (filter (\<lambda>m. ntype m = nodeType) (preorder c)))" .
    from "3.IH"(2) [OF True h "3.prems"(1) ws] h True show ?thesis by simp
  next
    case False
    from "3.IH"(3) [OF False "3.prems"(1) ws] False show ?thesis by simp
  qed
qed

lemma wfNode_self: "wfNode lo hi c \<Longrightarrow> wfNode (startByte c) (endByte c) c"
  by (cases c) simp

lemma wf_bounds:
  "wfNode lo hi n \<Longrightarrow> m \<in> set (preorder n) \<Longrightarrow> lo \<le> startByte m \<and> startByte m \<le> endByte m \<and> endByte m \<le> hi"
  "wfNodes lo hi cs \<Longrightarrow> m \<in> set (preorderNamed cs) \<Longrightarrow> lo \<le> startByte m \<and> startByte m \<le> endByte m \<and> endByte m \<le> hi"
proof (induction lo hi n and lo hi cs rule: wfNode_wfNodes.induct)
  case (1 lo hi t nm s e cs)
  then show ?case by fastforce
next
  case (2 lo hi)
  then show ?case by simp
next
  case (3 lo hi c cs)
  from "3.prems" have wc: "wfNode lo hi c" and ws: "wfNodes (endByte c) hi cs" by auto
  from wc have le: "lo \<le> endByte c" by (cases c) auto
  from "3.prems"(2) consider "m \<in> set (preorder c)" | "m \<in> set (preorderNamed cs)"
    by (auto split: if_splits)
  then show ?case
  proof cases
    case 1
    with "3.IH"(1) [OF wc] show ?thesis by simp
  next
    case 2
    with "3.IH"(2) [OF ws] le show ?thesis by auto
  qed
qed

lemma wf_sorted:
  "wfNode lo hi n \<Longrightarrow> sorted (map startByte (preorder n))"
  "wfNodes lo hi cs \<Longrightarrow> sorted (map startByte (preorderNamed cs))"
proof (induction lo hi n and lo hi cs rule: wfNode_wfNodes.induct)
  case (1 lo hi t nm s e cs)
  then have w: "wfNodes s e cs" by simp
  from wf_bounds(2) [OF w] "1.IH" [OF w] show ?case by auto
next
  case (2 lo hi)
  then show ?case by simp
next
  case (3 lo hi c cs)
  from "3.prems" have wc: "wfNode lo hi c" and ws: "wfNodes (endByte c) hi cs" by auto
  have "\<forall>x\<in>set (preorder c). \<forall>y\<in>set (preorderNamed cs). startByte x \<le> startByte y"
    using wf_bounds(1) [OF wfNode_self [OF wc]] wf_bounds(2) [OF ws] by (meson order_trans)
  with "3.IH"(1) [OF wc] "3.IH"(2) [OF ws] show ?case
    by (auto simp: sorted_append)
qed

lemma preorder_head: "preorder m = m # preorderNamed (children m)"
  by (cases m) simp

lemma preorder_segment:
  "m \<in> set (preorder n) \<Longrightarrow> \<exists>xs ys. preorder n = xs @ preorder m @ ys"
  "m \<in> set (preorderNamed cs) \<Longrightarrow> \<exists>xs ys. preorderNamed cs = xs @ preorder m @ ys"
proof (induction n and cs rule: preorder_preorderNamed.induct)
  case (1 t nm s e cs)
  show ?case
  proof (cases "m = Node t nm s e cs")
    case True
    have "preorder (Node t nm s e cs) = [] @ preorder m @ []" using True by simp
    then show ?thesis by blast
  next
    case False
    with "1.prems" have "m \<in> set (preorderNamed cs)" by simp
    from "1.IH" [OF this] obtain xs ys where "preorderNamed cs = xs @ preorder m @ ys" by blast
    then have "preorder (Node t nm s e cs) = (Node t nm s e cs # xs) @ preorder m @ ys" by simp
    then show ?thesis by blast
  qed
next
  case 2
  then show ?case by simp
next
  case (3 c cs)
  from "3.prems" consider (a) "isNamed c" "m \<in> set (preorder c)" | (b) "m \<in> set (preorderNamed cs)"
    by (auto split: if_splits)
  then show ?case
  proof cases
    case a
    from "3.IH"(1) [OF a] obtain xs ys where "preorder c = xs @ preorder m @ ys" by blast
    with a(1) have "preorderNamed (c # cs) = xs @ preorder m @ (ys @ preorderNamed cs)" by simp
    then show ?thesis by blast
  next
    case b
    from "3.IH"(2) [OF b] obtain xs ys where "preorderNamed cs = xs @ preorder m @ ys" by blast
    then have "preorderNamed (c # cs) = ((if isNamed c then preorder c else []) @ xs) @ preorder m @ ys"
      by simp
    then show ?thesis by blast
  qed
qed

lemma wf_sub:
  "wfNode lo hi n \<Longrightarrow> m \<in> set (preorder n) \<Longrightarrow> wfNode (startByte m) (endByte m) m"
  "wfNodes lo hi cs \<Longrightarrow> m \<in> set (preorderNamed cs) \<Longrightarrow> wfNode (startByte m) (endByte m) m"
proof (induction lo hi n and lo hi cs rule: wfNode_wfNodes.induct)
  case (1 lo hi t nm s e cs)
  then show ?case by auto
next
  case (2 lo hi)
  then show ?case by simp
next
  case (3 lo hi c cs)
  then show ?case by (auto split: if_splits)
qed

lemma span_inside:
  assumes "s1 \<le> s2" "s2 \<le> e2" "e2 \<le> e1" "e1 \<le> length src"
  shows "take (e1 - s1) (drop s1 src)
     = take (s2 - s1) (drop s1 src) @ take (e2 - s2) (drop s2 src) @ take (e1 - e2) (drop e2 src)"
proof -
  from assms have len: "e1 - s1 = (s2 - s1) + ((e2 - s2) + (e1 - e2))" by arith
  from assms have rejoin: "s2 - s1 + s1 = s2" "e2 - s2 + s2 = e2" by arith+
  show ?thesis unfolding len take_add drop_drop rejoin ..
qed

lemma extractFunctions_wf:
  assumes "parse env lang src = Inr root" "wfTree src root"
  shows "extractFunctions (parse env) src lang nodeType = Inr (map (spanText src) (matched nodeType root))"
proof -
  from assms(2) have "wfNode 0 (length src) root" by (simp add: wfTree_def)
  from walk_chunks(1) [OF le_refl this, of nodeType "[]"] assms(1)
  show ?thesis by (simp add: extractFunctions_def matched_def)
qed

lemma matched_sorted:
  assumes "wfTree src root"
  shows "sorted (map startByte (matched nodeType root))"
proof -
  from assms have "sorted (map startByte (preorder root))"
    unfolding wfTree_def by (rule wf_sorted(1))
  then show ?thesis unfolding matched_def by (rule sorted_filter)
qed

lemma strict_sorted_upto:
  assumes "sorted_wrt (<) (xs :: nat list)" "set xs = {1 .. n}"
  shows "xs = [1 ..< Suc n]"
proof -
  from assms(1) have "sorted xs" "distinct xs" by (simp_all add: strict_sorted_iff)
  moreover have "sorted [1 ..< Suc n]" "distinct [1 ..< Suc n]" by (simp_all del: upt_Suc)
  moreover from assms(2) have "set xs = set [1 ..< Suc n]"
    by (simp del: upt_Suc add: atLeastLessThanSuc_atLeastAtMost)
  ultimately show ?thesis by (rule sorted_distinct_set_unique)
qed

section \<open>The loop over the chunks of a file\<close>

lemma buildPrompt_frame:
  "buildPrompt env g lang code s = (r, s1) \<Longrightarrow> s1 = s\<lparr>tmplLoads := tmplLoads s @ [g]\<rparr>"
  by (auto simp: buildPrompt_def Let_def split: sum.splits)

lemma reviewChunk_frame:
  assumes "reviewChunk env client mdl g lang code s = (r, s1)"
  shows "report s1 = report s" "logs s1 = logs s" "stdout s1 = stdout s"
    "walkErrs s1 = walkErrs s" "writes s1 = writes s" "urlParses s1 = urlParses s"
    "tmplLoads s1 = tmplLoads s @ [g]"
  using assms
  by (auto simp: reviewChunk_def Let_def split: prod.splits sum.splits option.splits
      dest!: buildPrompt_frame)

lemma reviewChunks_step:
  obtains (failed) err s1 where
      "reviewChunk env client (cfgModel env) (cfgGuideline env) (TrimPrefix ext ''.'') chunk s = (Inl err, s1)"
      "reviewChunks env client path ext n i (chunk # rest) s
         = reviewChunks env client path ext n (i + 1) rest
             (s1\<lparr>logs := logs s1 @ [ReviewError path (i + 1) err]\<rparr>)"
    | (reviewed) res s1 where
      "reviewChunk env client (cfgModel env) (cfgGuideline env) (TrimPrefix ext ''.'') chunk s = (Inr res, s1)"
      "reviewChunks env client path ext n i (chunk # rest) s
         = reviewChunks env client path ext n (i + 1) rest
             (s1\<lparr>stdout := stdout s1 @ [res],
                 report := report s1 @ [fmtSection path (i + 1) n res]\<rparr>)"
proof -
  obtain r s1 where rc: "reviewChunk env client (cfgModel env) (cfgGuideline env) (TrimPrefix ext ''.'') chunk s = (r, s1)"
    by (cases "reviewChunk env client (cfgModel env) (cfgGuideline env) (TrimPrefix ext ''.'') chunk s")
  show thesis
  proof (cases r)
    case (Inl err)
    with rc show ?thesis by (intro failed [of err s1]) simp_all
  next
    case (Inr res)
    with rc show ?thesis by (intro reviewed [of res s1]) simp_all
  qed
qed

lemma reviewChunks_post:
  "\<exists>secs fails.
     report (reviewChunks env client path ext n i cs s)
       = report s @ map (\<lambda>(j, res). fmtSection path j n res) secs \<and>
     logs (reviewChunks env client path ext n i cs s)
       = logs s @ map (\<lambda>(j, err). ReviewError path j err) fails \<and>
     sorted_wrt (<) (map fst secs) \<and>
     set (map fst secs) \<union> set (map fst fails) = {i + 1 .. i + length cs} \<and>
     set (map fst secs) \<inter> set (map fst fails) = {}"
proof (induction cs arbitrary: i s)
  case Nil
  show ?case by (rule exI [of _ "[]"], rule exI [of _ "[]"]) simp
next
  case (Cons chunk rest)
  show ?case
  proof (cases rule: reviewChunks_step [of env client ext chunk s path n i rest])
    case (failed err s1)
    note fr = reviewChunk_frame [OF failed(1)]
    let ?s2 = "s1\<lparr>logs := logs s1 @ [ReviewError path (i + 1) err]\<rparr>"
    from Cons.IH [of "i + 1" ?s2] obtain secs fails where
      ih: "report (reviewChunks env client path ext n (i + 1) rest ?s2)
             = report ?s2 @ map (\<lambda>(j, res). fmtSection path j n res) secs"
          "logs (reviewChunks env client path ext n (i + 1) rest ?s2)
             = logs ?s2 @ map (\<lambda>(j, err). ReviewError path j err) fails"
          "sorted_wrt (<) (map fst secs)"
          "set (map fst secs) \<union> set (map fst fails) = {i + 1 + 1 .. i + 1 + length rest}"
          "set (map fst secs) \<inter> set (map fst fails) = {}"
      by blast
    from ih(4) have sub: "set (map fst secs) \<subseteq> {i + 1 + 1 .. i + 1 + length rest}" by blast
    then have notin: "i + 1 \<notin> set (map fst secs)" by force
    have un: "set (map fst secs) \<union> set (map fst ((i + 1, err) # fails)) = {i + 1 .. i + length (chunk # rest)}"
      using ih(4) by auto
    have dj: "set (map fst secs) \<inter> set (map fst ((i + 1, err) # fails)) = {}"
      using ih(5) notin by auto
    show ?thesis
      apply (rule exI [of _ secs], rule exI [of _ "(i + 1, err) # fails"])
      unfolding failed(2) using ih(1,2,3) fr(1,2) un dj by simp
  next
    case (reviewed res s1)
    note fr = reviewChunk_frame [OF reviewed(1)]
    let ?s2 = "s1\<lparr>stdout := stdout s1 @ [res], report := report s1 @ [fmtSection path (i + 1) n res]\<rparr>"
    from Cons.IH [of "i + 1" ?s2] obtain secs fails where
      ih: "report (reviewChunks env client path ext n (i + 1) rest ?s2)
             = report ?s2 @ map (\<lambda>(j, res). fmtSection path j n res) secs"
          "logs (reviewChunks env client path ext n (i + 1) rest ?s2)
             = logs ?s2 @ map (\<lambda>(j, err). ReviewError path j err) fails"
          "sorted_wrt (<) (map fst secs)"
          "set (map fst secs) \<union> set (map fst fails) = {i + 1 + 1 .. i + 1 + length rest}"
          "set (map fst secs) \<inter> set (map fst fails) = {}"
      by blast
    from ih(4) have sub: "set (map fst secs) \<subseteq> {i + 1 + 1 .. i + 1 + length rest}"
      and sub2: "set (map fst fails) \<subseteq> {i + 1 + 1 .. i + 1 + length rest}" by blast+
    from sub2 have notin: "i + 1 \<notin> set (map fst fails)" by force
    from sub have gt: "\<forall>j\<in>set (map fst secs). i + 1 < j" by force
    have un: "set (map fst ((i + 1, res) # secs)) \<union> set (map fst fails) = {i + 1 .. i + length (chunk # rest)}"
      using ih(4) by auto
    have dj: "set (map fst ((i + 1, res) # secs)) \<inter> set (map fst fails) = {}"
      using ih(5) notin by auto
    have so: "sorted_wrt (<) (map fst ((i + 1, res) # secs))"
      using ih(3) gt by simp
    show ?thesis
      apply (rule exI [of _ "(i + 1, res) # secs"], rule exI [of _ fails])
      unfolding reviewed(2) using ih(1,2) so fr(1,2) un dj by simp
  qed
qed

lemma reviewChunks_frame:
  "walkErrs (reviewChunks env client path ext n i cs s) = walkErrs s \<and>
   writes (reviewChunks env client path ext n i cs s) = writes s \<and>
   urlParses (reviewChunks env client path ext n i cs s) = urlParses s \<and>
   tmplLoads (reviewChunks env client path ext n i cs s)
     = tmplLoads s @ replicate (length cs) (cfgGuideline env)"
proof (induction cs arbitrary: i s)
  case Nil
  show ?case by simp
next
  case (Cons chunk rest)
  show ?case
  proof (cases rule: reviewChunks_step [of env client ext chunk s path n i rest])
    case (failed err s1)
    show ?thesis unfolding failed(2)
      using Cons.IH [of "i + 1" "s1\<lparr>logs := logs s1 @ [ReviewError path (i + 1) err]\<rparr>"]
        reviewChunk_frame [OF failed(1)]
      by (simp add: replicate_append_same)
  next
    case (reviewed res s1)
    show ?thesis unfolding reviewed(2)
      using Cons.IH [of "i + 1" "s1\<lparr>stdout := stdout s1 @ [res],
                 report := report s1 @ [fmtSection path (i + 1) n res]\<rparr>"]
        reviewChunk_frame [OF reviewed(1)]
      by (simp add: replicate_append_same)
  qed
qed

section \<open>The walk\<close>

lemma walkDir_rel:
  assumes cb: "\<And>s p d e r s'. fn s p d e = (r, s') \<Longrightarrow> e = None \<or> (\<exists>m. e = Some (IOError m)) \<Longrightarrow> R s r s'"
    and seq: "\<And>s s1 r s2. R s None s1 \<Longrightarrow> R s1 r s2 \<Longrightarrow> R s r s2"
    and skip: "\<And>s s'. R s (Some SkipDir) s' \<Longrightarrow> R s None s'"
    and refl: "\<And>s. R s None s"
  shows "walkDir fn p d s = (r, s') \<Longrightarrow> R s r s'"
    and "walkDirs fn p ds s = (r, s') \<Longrightarrow> R s r s'"
  using cb
proof (induction fn p d s and fn p ds s arbitrary: r s' and r s' rule: walkDir_walkDirs.induct)
  case (1 fn path n s)
  from "1.prems"(1) have "fn s path (Some (File n)) None = (r, s')" by simp
  from "1.prems"(2) [OF this] show ?case by simp
next
  case (2 fn path n rerr ds s)
  obtain r1 s1 where c1: "fn s path (Some (Dir n rerr ds)) None = (r1, s1)"
    by (cases "fn s path (Some (Dir n rerr ds)) None")
  have R1: "R s r1 s1" using "2.prems"(2) [OF c1] by simp
  show ?case
  proof (cases r1)
    case (Some err)
    show ?thesis
    proof (cases "err = SkipDir")
      case True
      with c1 Some "2.prems"(1) have "r = None" "s' = s1" by simp_all
      with R1 Some True skip show ?thesis by simp
    next
      case False
      with c1 Some "2.prems"(1) have "r = Some err" "s' = s1" by simp_all
      with R1 Some show ?thesis by simp
    qed
  next
    case None
    note r1 = None
    show ?thesis
    proof (cases rerr)
      case None
      from "2.prems"(1) c1 r1 None have w: "walkDirs fn path ds s1 = (r, s')" by simp
      have "R s1 r s'"
        by (rule "2.IH"(1) [OF c1 [symmetric] r1 None w "2.prems"(2)])
      with R1 r1 seq show ?thesis by blast
    next
      case (Some re)
      note rerr = Some
      obtain r2 s2 where c2: "fn s1 path (Some (Dir n rerr ds)) (Some (IOError re)) = (r2, s2)"
        by (cases "fn s1 path (Some (Dir n rerr ds)) (Some (IOError re))")
      have R2: "R s1 r2 s2" using "2.prems"(2) [OF c2] by simp
      show ?thesis
      proof (cases r2)
        case (Some err)
        show ?thesis
        proof (cases "err = SkipDir")
          case True
          with c1 c2 r1 rerr Some "2.prems"(1) have "r = None" "s' = s2" by simp_all
          moreover from R2 Some True skip have "R s1 None s2" by simp
          ultimately show ?thesis using R1 r1 seq by blast
        next
          case False
          with c1 c2 r1 rerr Some "2.prems"(1) have "r = Some err" "s' = s2" by simp_all
          with R1 R2 r1 Some seq show ?thesis by blast
        qed
      next
        case None
        from "2.prems"(1) c1 c2 r1 rerr None have w: "walkDirs fn path ds s2 = (r, s')" by simp
        have "R s2 r s'"
          by (rule "2.IH"(2) [OF c1 [symmetric] r1 rerr c2 [symmetric] None w "2.prems"(2)])
        moreover from R1 R2 r1 None seq have "R s None s2" by blast
        ultimately show ?thesis using seq by blast
      qed
    qed
  qed
next
  case (3 fn path s)
  then show ?case using refl by simp
next
  case (4 fn path d1 ds s)
  obtain r1 s1 where c1: "walkDir fn (Join path (ename d1)) d1 s = (r1, s1)"
    by (cases "walkDir fn (Join path (ename d1)) d1 s")
  have R1: "R s r1 s1" using "4.IH"(1) [OF c1 "4.prems"(2)] .
  show ?case
  proof (cases r1)
    case (Some err)
    show ?thesis
    proof (cases "err = SkipDir")
      case True
      with c1 Some "4.prems"(1) have "r = None" "s' = s1" by simp_all
      with R1 Some True skip show ?thesis by simp
    next
      case False
      with c1 Some "4.prems"(1) have "r = Some err" "s' = s1" by simp_all
      with R1 Some show ?thesis by simp
    qed
  next
    case None
    from "4.prems"(1) c1 None have w: "walkDirs fn path ds s1 = (r, s')" by simp
    have "R s1 r s'"
      by (rule "4.IH"(2) [OF c1 [symmetric] None w "4.prems"(2)])
    with R1 None seq show ?thesis by blast
  qed
qed

lemma WalkDir_rel:
  assumes cb: "\<And>s p d e r s'. fn s p d e = (r, s') \<Longrightarrow> e = None \<or> (\<exists>m. e = Some (IOError m)) \<Longrightarrow> R s r s'"
    and seq: "\<And>s s1 r s2. R s None s1 \<Longrightarrow> R s1 r s2 \<Longrightarrow> R s r s2"
    and skip: "\<And>s s'. R s (Some SkipDir) s' \<Longrightarrow> R s None s'"
    and skipAll: "\<And>s s'. R s (Some SkipAll) s' \<Longrightarrow> R s None s'"
    and refl: "\<And>s. R s None s"
    and run: "WalkDir lst root fn s = (r, s')"
  shows "R s r s'"
proof -
  obtain r1 s1 where c: "(case lst root of Inl err \<Rightarrow> fn s root None (Some (IOError err))
      | Inr d \<Rightarrow> walkDir fn root d s) = (r1, s1)"
    by (cases "case lst root of Inl err \<Rightarrow> fn s root None (Some (IOError err))
      | Inr d \<Rightarrow> walkDir fn root d s")
  have R1: "R s r1 s1"
  proof (cases "lst root")
    case (Inl err)
    with c have "fn s root None (Some (IOError err)) = (r1, s1)" by simp
    from cb [OF this] show ?thesis by simp
  next
    case (Inr d)
    with c have "walkDir fn root d s = (r1, s1)" by simp
    from walkDir_rel(1) [of fn R, OF cb seq skip refl this] show ?thesis by simp
  qed
  from run c have res: "(r, s') = (case r1 of Some err \<Rightarrow>
      (if err = SkipDir \<or> err = SkipAll then (None, s1) else (Some err, s1)) | None \<Rightarrow> (None, s1))"
    by (simp add: WalkDir_def)
  show ?thesis
  proof (cases r1)
    case None
    with res R1 show ?thesis by simp
  next
    case (Some err)
    show ?thesis
    proof (cases "err = SkipDir \<or> err = SkipAll")
      case True
      with res Some have "r = None" "s' = s1" by simp_all
      with R1 Some True skip skipAll show ?thesis by auto
    next
      case False
      with res Some have "r = Some err" "s' = s1" by simp_all
      with R1 Some show ?thesis by simp
    qed
  qed
qed

lemma walkFn_error: "walkFn env s path d (Some e) = (Some e, s\<lparr>walkErrs := walkErrs s @ [e]\<rparr>)"
  by (simp add: walkFn_def)

lemma walkFn_cases:
  assumes "walkFn env s path d None = (r, s')"
  shows "(s' = s \<and> (r = None \<or> r = Some SkipDir \<or> r = Some Panic))
       \<or> (r = None \<and> (\<exists>e. s' = s\<lparr>logs := logs s @ [e]\<rparr>))
       \<or> (\<exists>m. urlParse env (cfgOllamaHost env) = Inl m \<and>
              r = Some (Wrapped ''parse OLLAMA_HOST'' (IOError m)) \<and>
              s' = s\<lparr>urlParses := urlParses s @ [cfgOllamaHost env]\<rparr>)
       \<or> (\<exists>client chunks. urlParse env (cfgOllamaHost env) = Inr client \<and> r = None \<and>
              s' = reviewChunks env client path (Ext path) (length chunks) 0 chunks
                     (s\<lparr>urlParses := urlParses s @ [cfgOllamaHost env]\<rparr>))"
  using assms unfolding walkFn_def Let_def
  by (auto split: option.splits if_splits sum.splits prod.splits)

lemma walkFn_relErrs:
  assumes "walkFn env s p d e = (r, s')" "e = None \<or> (\<exists>m. e = Some (IOError m))"
  shows "relErrs s r s'"
proof (cases e)
  case None
  from walkFn_cases [OF assms(1) [unfolded None]] show ?thesis
    by (auto simp: relErrs_def reviewChunks_frame)
next
  case (Some a)
  with assms show ?thesis by (auto simp: relErrs_def walkFn_error)
qed

lemma WalkDir_relErrs:
  assumes "WalkDir lst root (walkFn env) s = (r, s')"
  shows "relErrs s r s'"
proof (rule WalkDir_rel [where R = relErrs, OF _ _ _ _ _ assms])
  show "\<And>s p d e r s'. walkFn env s p d e = (r, s') \<Longrightarrow> e = None \<or> (\<exists>m. e = Some (IOError m)) \<Longrightarrow> relErrs s r s'"
    by (rule walkFn_relErrs)
  show "\<And>s s1 r s2. relErrs s None s1 \<Longrightarrow> relErrs s1 r s2 \<Longrightarrow> relErrs s r s2"
    by (auto simp: relErrs_def)
  show "\<And>s s'. relErrs s (Some SkipDir) s' \<Longrightarrow> relErrs s None s'"
    by (auto simp: relErrs_def)
  show "\<And>s s'. relErrs s (Some SkipAll) s' \<Longrightarrow> relErrs s None s'"
    by (auto simp: relErrs_def)
  show "\<And>s. relErrs s None s"
    by (simp add: relErrs_def)
qed

lemma walkFn_relUrl:
  assumes "urlParse env (cfgOllamaHost env) = Inl m" "walkFn env s p d e = (r, s')"
  shows "relUrl m s r s'"
proof (cases e)
  case None
  from walkFn_cases [OF assms(2) [unfolded None]] assms(1) show ?thesis
    by (auto simp: relUrl_def)
next
  case (Some a)
  with assms show ?thesis by (auto simp: relUrl_def walkFn_error)
qed

lemma WalkDir_relUrl:
  assumes "urlParse env (cfgOllamaHost env) = Inl m" "WalkDir lst root (walkFn env) s = (r, s')"
  shows "relUrl m s r s'"
proof (rule WalkDir_rel [where R = "relUrl m", OF _ _ _ _ _ assms(2)])
  show "\<And>s p d e r s'. walkFn env s p d e = (r, s') \<Longrightarrow> e = None \<or> (\<exists>m. e = Some (IOError m)) \<Longrightarrow> relUrl m s r s'"
    by (rule walkFn_relUrl [OF assms(1)])
  show "\<And>s s1 r s2. relUrl m s None s1 \<Longrightarrow> relUrl m s1 r s2 \<Longrightarrow> relUrl m s r s2"
    by (auto simp: relUrl_def)
  show "\<And>s s'. relUrl m s (Some SkipDir) s' \<Longrightarrow> relUrl m s None s'"
    by (auto simp: relUrl_def)
  show "\<And>s s'. relUrl m s (Some SkipAll) s' \<Longrightarrow> relUrl m s None s'"
    by (auto simp: relUrl_def)
  show "\<And>s. relUrl m s None s"
    by (simp add: relUrl_def)
qed

lemma reviewChunks_relReport:
  "relReport s r (reviewChunks env client path ext (length cs) 0 cs s)"
proof -
  from reviewChunks_post [of env client path ext "length cs" 0 cs s]
  obtain secs and fails :: "(nat \<times> error) list" where
    rep: "report (reviewChunks env client path ext (length cs) 0 cs s)
       = report s @ map (\<lambda>(j, res). fmtSection path j (length cs) res) secs"
    and un: "set (map fst secs) \<union> set (map fst fails) = {0 + 1 .. 0 + length cs}"
    by blast
  from un have "set (map fst secs) \<subseteq> {0 + 1 .. 0 + length cs}" by blast
  then have sub: "\<And>j. j \<in> set (map fst secs) \<Longrightarrow> 1 \<le> j \<and> j \<le> length cs" by fastforce
  have "\<forall>sec\<in>set (map (\<lambda>(j, res). fmtSection path j (length cs) res) secs). isSection sec"
  proof
    fix sec assume "sec \<in> set (map (\<lambda>(j, res). fmtSection path j (length cs) res) secs)"
    then obtain x where x: "x \<in> set secs" and sec: "sec = (\<lambda>(j, res). fmtSection path j (length cs) res) x"
      by (auto simp: image_iff)
    obtain j res where jr: "x = (j, res)" by (cases x)
    from x jr have "j \<in> set (map fst secs)" by force
    from sub [OF this] have "1 \<le> j \<and> j \<le> length cs" .
    with sec jr show "isSection sec" unfolding isSection_def by auto
  qed
  with rep show ?thesis unfolding relReport_def
    by (intro exI [of _ "map (\<lambda>(j, res). fmtSection path j (length cs) res) secs"] conjI)
qed

lemma walkFn_relReport:
  assumes "walkFn env s p d e = (r, s')"
  shows "relReport s r s'"
proof (cases e)
  case None
  from walkFn_cases [OF assms(1) [unfolded None]] show ?thesis
  proof (elim disjE exE conjE)
    fix client chunks
    assume "s' = reviewChunks env client p (Ext p) (length chunks) 0 chunks
                     (s\<lparr>urlParses := urlParses s @ [cfgOllamaHost env]\<rparr>)"
    with reviewChunks_relReport [of "s\<lparr>urlParses := urlParses s @ [cfgOllamaHost env]\<rparr>" r env client p "Ext p" chunks]
    show ?thesis by (simp add: relReport_def)
  qed (auto simp: relReport_def)
next
  case (Some a)
  with assms show ?thesis by (auto simp: relReport_def walkFn_error)
qed

lemma WalkDir_relReport:
  assumes "WalkDir lst root (walkFn env) s = (r, s')"
  shows "relReport s r s'"
proof (rule WalkDir_rel [where R = relReport, OF _ _ _ _ _ assms])
  show "\<And>s p d e r s'. walkFn env s p d e = (r, s') \<Longrightarrow> e = None \<or> (\<exists>m. e = Some (IOError m)) \<Longrightarrow> relReport s r s'"
    by (rule walkFn_relReport)
  show "\<And>s s1 r s2. relReport s None s1 \<Longrightarrow> relReport s1 r s2 \<Longrightarrow> relReport s r s2"
    unfolding relReport_def by (metis append.assoc set_append Un_iff)
  show "\<And>s s'. relReport s (Some SkipDir) s' \<Longrightarrow> relReport s None s'"
    by (auto simp: relReport_def)
  show "\<And>s s'. relReport s (Some SkipAll) s' \<Longrightarrow> relReport s None s'"
    by (auto simp: relReport_def)
  show "\<And>s. relReport s None s"
    by (simp add: relReport_def)
qed

section \<open>Properties of the pipeline\<close>

text \<open>
  C4: a node of the function node type that lies, through named nodes, inside another
  node of that type is collected as a chunk of its own after the chunk of the outer node,
  and the text of the outer chunk contains the text of the inner chunk.
\<close>

theorem nested_function_chunks_overlap:
  assumes "parse env lang src = Inr root" and "wfTree src root"
    and "outer \<in> set (preorder root)" and "ntype outer = nodeType"
    and "inner \<in> set (preorderNamed (children outer))" and "ntype inner = nodeType"
  shows "\<exists>pre mid post a b.
           extractFunctions (parse env) src lang nodeType
             = Inr (pre @ [spanText src outer] @ mid @ [spanText src inner] @ post) \<and>
           spanText src outer = a @ spanText src inner @ b"
proof -
  let ?P = "\<lambda>m. ntype m = nodeType"
  let ?T = "spanText src"
  from assms(2) have wr: "wfNode 0 (length src) root" by (simp add: wfTree_def)
  from preorder_segment(1) [OF assms(3)] obtain xs ys where
    seg: "preorder root = xs @ preorder outer @ ys" by blast
  from split_list [OF assms(5)] obtain us vs where
    kids: "preorderNamed (children outer) = us @ inner # vs" by blast
  have "matched nodeType root
      = filter ?P xs @ [outer] @ filter ?P us @ [inner] @ (filter ?P vs @ filter ?P ys)"
    using seg kids assms(4,6) by (simp add: matched_def preorder_head [of outer])
  then have chunks: "map ?T (matched nodeType root)
      = map ?T (filter ?P xs) @ [?T outer] @ map ?T (filter ?P us) @ [?T inner]
          @ map ?T (filter ?P vs @ filter ?P ys)"
    by simp
  from wf_sub(1) [OF wr assms(3)] have "wfNodes (startByte outer) (endByte outer) (children outer)"
    by (cases outer) simp
  from wf_bounds(2) [OF this assms(5)]
  have inn: "startByte outer \<le> startByte inner" "startByte inner \<le> endByte inner"
    "endByte inner \<le> endByte outer" by simp_all
  from wf_bounds(1) [OF wr assms(3)] have "endByte outer \<le> length src" by simp
  from span_inside [OF inn this]
  have "?T outer = take (startByte inner - startByte outer) (drop (startByte outer) src)
      @ ?T inner @ take (endByte outer - endByte inner) (drop (endByte inner) src)"
    by (simp add: spanText_def)
  with extractFunctions_wf [OF assms(1,2), of nodeType] chunks show ?thesis by metis
qed

lemma exTree_wf: "wfTree exSrc exTree"
  by (simp add: wfTree_def exSrc_def exTree_def exOuter_def exInner_def exLast_def)

lemma exEnv_parse: "parse (exEnv excl lst host tf cf) Python exSrc = Inr exTree"
  by (simp add: exEnv_def)

theorem nested_function_chunks_overlap_witness:
  "parse (exEnv [] (exLstat ''.'' (exRepo ''.'')) exHost never never) Python exSrc = Inr exTree \<and>
   wfTree exSrc exTree \<and>
   exOuter \<in> set (preorder exTree) \<and> ntype exOuter = ''function_definition'' \<and>
   exInner \<in> set (preorderNamed (children exOuter)) \<and> ntype exInner = ''function_definition'' \<and>
   (\<exists>pre mid post a b.
      extractFunctions (parse (exEnv [] (exLstat ''.'' (exRepo ''.'')) exHost never never))
          exSrc Python ''function_definition''
        = Inr (pre @ [spanText exSrc exOuter] @ mid @ [spanText exSrc exInner] @ post) \<and>
      spanText exSrc exOuter = a @ spanText exSrc exInner @ b)"
proof -
  have h3: "exOuter \<in> set (preorder exTree)"
    by (simp add: exTree_def exOuter_def)
  have h4: "ntype exOuter = ''function_definition''" by (simp add: exOuter_def)
  have h5: "exInner \<in> set (preorderNamed (children exOuter))"
    by (simp add: exOuter_def exInner_def)
  have h6: "ntype exInner = ''function_definition''" by (simp add: exInner_def)
  from nested_function_chunks_overlap [OF exEnv_parse exTree_wf h3 h4 h5 h6]
    exEnv_parse exTree_wf h3 h4 h5 h6
  show ?thesis by simp
qed

lemma walkFn_file_reviewed:
  assumes "langConfig (Ext path) = Some (lang, nodeType)" "readFile env path = Inr src"
    "extractFunctions (parse env) src lang nodeType = Inr chunks" "chunks \<noteq> []"
    "urlParse env (cfgOllamaHost env) = Inr client"
  shows "walkFn env s path (Some (File nm)) None
      = (None, reviewChunks env client path (Ext path) (length chunks) 0 chunks
                 (s\<lparr>urlParses := urlParses s @ [cfgOllamaHost env]\<rparr>))"
  using assms by (simp add: walkFn_def Let_def)

lemma walkFn_file_no_chunks:
  assumes "langConfig (Ext path) = Some (lang, nodeType)" "readFile env path = Inr src"
    "extractFunctions (parse env) src lang nodeType = Inr []"
  shows "walkFn env s path (Some (File nm)) None = (None, s)"
  using assms by (simp add: walkFn_def Let_def)

lemma reviewChunks_snoc:
  "reviewChunks env client path ext n i (cs @ [c]) s =
     (case reviewChunk env client (cfgModel env) (cfgGuideline env) (TrimPrefix ext ''.'') c
             (reviewChunks env client path ext n i cs s) of
        (Inl err, s1) \<Rightarrow> s1\<lparr>logs := logs s1 @ [ReviewError path (i + length cs + 1) err]\<rparr>
      | (Inr res, s1) \<Rightarrow>
          s1\<lparr>stdout := stdout s1 @ [res],
              report := report s1 @ [fmtSection path (i + length cs + 1) n res]\<rparr>)"
proof (induction cs arbitrary: i s)
  case Nil
  show ?case by (simp split: prod.splits sum.splits)
next
  case (Cons x xs)
  have idx: "i + 1 + length xs + 1 = i + length (x # xs) + 1" by simp
  show ?case
  proof (cases rule: reviewChunks_step [of env client ext x s path n i xs])
    case (failed err s1)
    let ?s2 = "s1\<lparr>logs := logs s1 @ [ReviewError path (i + 1) err]\<rparr>"
    have L: "reviewChunks env client path ext n i ((x # xs) @ [c]) s
        = reviewChunks env client path ext n (i + 1) (xs @ [c]) ?s2"
      using failed(1) by simp
    show ?thesis unfolding L failed(2) Cons.IH [of "i + 1" ?s2] idx ..
  next
    case (reviewed res s1)
    let ?s2 = "s1\<lparr>stdout := stdout s1 @ [res],
                 report := report s1 @ [fmtSection path (i + 1) n res]\<rparr>"
    have L: "reviewChunks env client path ext n i ((x # xs) @ [c]) s
        = reviewChunks env client path ext n (i + 1) (xs @ [c]) ?s2"
      using reviewed(1) by simp
    show ?thesis unfolding L reviewed(2) Cons.IH [of "i + 1" ?s2] idx ..
  qed
qed

lemma stateBefore_Suc:
  assumes "k < length chunks"
  shows "report (stateBefore env client path ext chunks s (Suc k))
           = report (stateBefore env client path ext chunks s k)
             @ (case outcome env client path ext chunks s k of
                  Inl err \<Rightarrow> []
                | Inr res \<Rightarrow> [fmtSection path (Suc k) (length chunks) res])"
    and "logs (stateBefore env client path ext chunks s (Suc k))
           = logs (stateBefore env client path ext chunks s k)
             @ (case outcome env client path ext chunks s k of
                  Inl err \<Rightarrow> [ReviewError path (Suc k) err]
                | Inr res \<Rightarrow> [])"
proof -
  let ?sk = "stateBefore env client path ext chunks s k"
  obtain r s1 where rc: "reviewChunk env client (cfgModel env) (cfgGuideline env)
      (TrimPrefix ext ''.'') (chunks ! k) ?sk = (r, s1)"
    by (cases "reviewChunk env client (cfgModel env) (cfgGuideline env)
      (TrimPrefix ext ''.'') (chunks ! k) ?sk")
  note fr = reviewChunk_frame [OF rc]
  from rc have oc: "outcome env client path ext chunks s k = r" by (simp add: outcome_def)
  from assms have len: "length (take k chunks) = k" by simp
  have step: "stateBefore env client path ext chunks s (Suc k)
      = (case (r, s1) of
           (Inl err, s1) \<Rightarrow> s1\<lparr>logs := logs s1 @ [ReviewError path (0 + k + 1) err]\<rparr>
         | (Inr res, s1) \<Rightarrow>
             s1\<lparr>stdout := stdout s1 @ [res],
                 report := report s1 @ [fmtSection path (0 + k + 1) (length chunks) res]\<rparr>)"
    unfolding stateBefore_def take_Suc_conv_app_nth [OF assms] reviewChunks_snoc len
    using rc by (simp add: stateBefore_def)
  show "report (stateBefore env client path ext chunks s (Suc k))
           = report ?sk
             @ (case outcome env client path ext chunks s k of
                  Inl err \<Rightarrow> []
                | Inr res \<Rightarrow> [fmtSection path (Suc k) (length chunks) res])"
    unfolding step oc using fr by (cases r) simp_all
  show "logs (stateBefore env client path ext chunks s (Suc k))
           = logs ?sk
             @ (case outcome env client path ext chunks s k of
                  Inl err \<Rightarrow> [ReviewError path (Suc k) err]
                | Inr res \<Rightarrow> [])"
    unfolding step oc using fr by (cases r) simp_all
qed

lemma stateBefore_report:
  "k \<le> length chunks \<Longrightarrow>
   report (stateBefore env client path ext chunks s k)
     = report s @ concat (map (\<lambda>j. case outcome env client path ext chunks s j of
                                     Inl err \<Rightarrow> []
                                   | Inr res \<Rightarrow> [fmtSection path (Suc j) (length chunks) res])
                            [0 ..< k])"
proof (induction k)
  case 0
  show ?case by (simp add: stateBefore_def)
next
  case (Suc k)
  then have lt: "k < length chunks" and le: "k \<le> length chunks" by simp_all
  show ?case
    unfolding stateBefore_Suc(1) [OF lt, of env client path ext s] Suc.IH [OF le] by simp
qed

lemma stateBefore_logs:
  "k \<le> length chunks \<Longrightarrow>
   logs (stateBefore env client path ext chunks s k)
     = logs s @ concat (map (\<lambda>j. case outcome env client path ext chunks s j of
                                   Inl err \<Rightarrow> [ReviewError path (Suc j) err]
                                 | Inr res \<Rightarrow> [])
                          [0 ..< k])"
proof (induction k)
  case 0
  show ?case by (simp add: stateBefore_def)
next
  case (Suc k)
  then have lt: "k < length chunks" and le: "k \<le> length chunks" by simp_all
  show ?case
    unfolding stateBefore_Suc(2) [OF lt, of env client path ext s] Suc.IH [OF le] by simp
qed

lemma stateBefore_all:
  "stateBefore env client path ext chunks s (length chunks)
     = reviewChunks env client path ext (length chunks) 0 chunks s"
  by (simp add: stateBefore_def)

lemma itoa_digits: "set (itoa n) \<subseteq> set ''0123456789''"
proof (induction n rule: itoa.induct)
  case (1 n)
  have "\<forall>d\<in>set [0 ..< 10]. char_of (48 + d :: nat) \<in> set ''0123456789''"
    by code_simp
  then have d: "\<And>d. d < 10 \<Longrightarrow> char_of (48 + d :: nat) \<in> set ''0123456789''"
    by (simp del: upt_Suc)
  show ?case
  proof (cases "n < 10")
    case True
    with d [of n] show ?thesis by (subst itoa.simps) simp
  next
    case False
    with "1.IH" d [of "n mod 10"] show ?thesis by (subst itoa.simps) simp
  qed
qed

lemma decimalValue_snoc:
  "decimalValue (ds @ [c]) = 10 * decimalValue ds + (of_char c - 48)"
  by (simp add: decimalValue_def)

lemma itoa_value: "decimalValue (itoa n) = n"
proof (induction n rule: itoa.induct)
  case (1 n)
  have oc: "\<And>d. d < 10 \<Longrightarrow> of_char (char_of (48 + d :: nat)) - 48 = d"
    by (simp add: of_char_of)
  show ?case
  proof (cases "n < 10")
    case True
    with oc [of n] show ?thesis by (subst itoa.simps) (simp add: decimalValue_def)
  next
    case False
    with "1.IH" oc [of "n mod 10"] show ?thesis
      by (subst itoa.simps) (simp add: decimalValue_snoc)
  qed
qed

lemma walkFn_file_report:
  assumes "langConfig (Ext path) = Some (lang, nodeType)" "readFile env path = Inr src"
    "extractFunctions (parse env) src lang nodeType = Inr chunks"
    "urlParse env (cfgOllamaHost env) = Inr client"
  shows "report (snd (walkFn env s path (Some (File nm)) None))
      = report s @ concat (map
          (\<lambda>k. case outcome env client path (Ext path) chunks
                       (s\<lparr>urlParses := urlParses s @ [cfgOllamaHost env]\<rparr>) k of
                 Inl err \<Rightarrow> []
               | Inr res \<Rightarrow>
                   [''## '' @ path @ '' (chunk '' @ itoa (Suc k) @ ''/'' @ itoa (length chunks)
                      @ '')'' @ [CHR 0x0A, CHR 0x0A] @ res @ [CHR 0x0A, CHR 0x0A] @ ''---''
                      @ [CHR 0x0A]])
          [0 ..< length chunks])"
    and "logs (snd (walkFn env s path (Some (File nm)) None))
      = logs s @ concat (map
          (\<lambda>k. case outcome env client path (Ext path) chunks
                       (s\<lparr>urlParses := urlParses s @ [cfgOllamaHost env]\<rparr>) k of
                 Inl err \<Rightarrow> [ReviewError path (Suc k) err]
               | Inr res \<Rightarrow> [])
          [0 ..< length chunks])"
proof -
  let ?s1 = "s\<lparr>urlParses := urlParses s @ [cfgOllamaHost env]\<rparr>"
  have fmt: "\<And>k res. fmtSection path (Suc k) (length chunks) res
      = ''## '' @ path @ '' (chunk '' @ itoa (Suc k) @ ''/'' @ itoa (length chunks)
          @ '')'' @ [CHR 0x0A, CHR 0x0A] @ res @ [CHR 0x0A, CHR 0x0A] @ ''---'' @ [CHR 0x0A]"
    by (simp add: fmtSection_def nl_def)
  show "report (snd (walkFn env s path (Some (File nm)) None))
      = report s @ concat (map
          (\<lambda>k. case outcome env client path (Ext path) chunks ?s1 k of
                 Inl err \<Rightarrow> []
               | Inr res \<Rightarrow>
                   [''## '' @ path @ '' (chunk '' @ itoa (Suc k) @ ''/'' @ itoa (length chunks)
                      @ '')'' @ [CHR 0x0A, CHR 0x0A] @ res @ [CHR 0x0A, CHR 0x0A] @ ''---''
                      @ [CHR 0x0A]])
          [0 ..< length chunks])"
  proof (cases "chunks = []")
    case True
    with walkFn_file_no_chunks [OF assms(1,2), where s = s and nm = nm] assms(3)
    show ?thesis by simp
  next
    case False
    from walkFn_file_reviewed [OF assms(1,2,3) False assms(4), where s = s and nm = nm]
    have "snd (walkFn env s path (Some (File nm)) None)
        = stateBefore env client path (Ext path) chunks ?s1 (length chunks)"
      by (simp add: stateBefore_all)
    with stateBefore_report [OF le_refl, of env client path "Ext path" chunks ?s1]
    show ?thesis by (simp add: fmt cong: sum.case_cong)
  qed
  show "logs (snd (walkFn env s path (Some (File nm)) None))
      = logs s @ concat (map
          (\<lambda>k. case outcome env client path (Ext path) chunks ?s1 k of
                 Inl err \<Rightarrow> [ReviewError path (Suc k) err]
               | Inr res \<Rightarrow> [])
          [0 ..< length chunks])"
  proof (cases "chunks = []")
    case True
    with walkFn_file_no_chunks [OF assms(1,2), where s = s and nm = nm] assms(3)
    show ?thesis by simp
  next
    case False
    from walkFn_file_reviewed [OF assms(1,2,3) False assms(4), where s = s and nm = nm]
    have "snd (walkFn env s path (Some (File nm)) None)
        = stateBefore env client path (Ext path) chunks ?s1 (length chunks)"
      by (simp add: stateBefore_all)
    with stateBefore_logs [OF le_refl, of env client path "Ext path" chunks ?s1]
    show ?thesis by simp
  qed
qed

lemma concat_all_sections:
  assumes "\<forall>k<n. \<exists>res. f k = Inr res"
  shows "concat (map (\<lambda>k. case f k of Inl err \<Rightarrow> [] | Inr res \<Rightarrow> [g k res]) [0 ..< n])
      = map (\<lambda>k. g k (projr (f k))) [0 ..< n]"
proof -
  have "map (\<lambda>k. case f k of Inl err \<Rightarrow> [] | Inr res \<Rightarrow> [g k res]) [0 ..< n]
      = map (\<lambda>k. [g k (projr (f k))]) [0 ..< n]"
    using assms by (intro map_cong) auto
  then show ?thesis by (simp only: concat_map_singleton)
qed

text \<open>
  C1, as the code has it: the chunks of a file are the texts of the nodes of the function
  node type in depth-first pre-order over the named nodes, which for the trees a parser
  delivers is the order of their start bytes. With N chunks, the chunk at position k of
  that order (counted from 0) is reviewed after the k chunks before it and is numbered
  k+1: when its review succeeds, the section headed with the file path and k+1/N and
  holding its review text is appended to the report; when its review fails, the failure
  is logged under k+1 and no section is appended. The sections of the file thus appear
  in increasing order of their numbers, and they are numbered exactly 1..N when no
  review fails.
\<close>

theorem chunk_numbering:
  assumes "langConfig (Ext path) = Some (lang, nodeType)" and "readFile env path = Inr src"
    and "parse env lang src = Inr root" and "wfTree src root"
    and "urlParse env (cfgOllamaHost env) = Inr client"
  shows "extractFunctions (parse env) src lang nodeType
           = Inr (map (spanText src) (matched nodeType root)) \<and>
         sorted (map startByte (matched nodeType root)) \<and>
         (\<forall>k<length (matched nodeType root).
            outcome env client path (Ext path) (map (spanText src) (matched nodeType root))
                (s\<lparr>urlParses := urlParses s @ [cfgOllamaHost env]\<rparr>) k
              = fst (reviewChunk env client (cfgModel env) (cfgGuideline env)
                       (TrimPrefix (Ext path) ''.'') (spanText src (matched nodeType root ! k))
                       (stateBefore env client path (Ext path)
                          (map (spanText src) (matched nodeType root))
                          (s\<lparr>urlParses := urlParses s @ [cfgOllamaHost env]\<rparr>) k))) \<and>
         report (snd (walkFn env s path (Some (File nm)) None))
           = report s @ concat (map
               (\<lambda>k. case outcome env client path (Ext path)
                            (map (spanText src) (matched nodeType root))
                            (s\<lparr>urlParses := urlParses s @ [cfgOllamaHost env]\<rparr>) k of
                      Inl err \<Rightarrow> []
                    | Inr res \<Rightarrow>
                        [''## '' @ path @ '' (chunk '' @ itoa (Suc k) @ ''/''
                           @ itoa (length (matched nodeType root)) @ '')''
                           @ [CHR 0x0A, CHR 0x0A] @ res @ [CHR 0x0A, CHR 0x0A] @ ''---''
                           @ [CHR 0x0A]])
               [0 ..< length (matched nodeType root)]) \<and>
         logs (snd (walkFn env s path (Some (File nm)) None))
           = logs s @ concat (map
               (\<lambda>k. case outcome env client path (Ext path)
                            (map (spanText src) (matched nodeType root))
                            (s\<lparr>urlParses := urlParses s @ [cfgOllamaHost env]\<rparr>) k of
                      Inl err \<Rightarrow> [ReviewError path (Suc k) err]
                    | Inr res \<Rightarrow> [])
               [0 ..< length (matched nodeType root)]) \<and>
         ((\<forall>k<length (matched nodeType root).
             \<exists>res. outcome env client path (Ext path)
                      (map (spanText src) (matched nodeType root))
                      (s\<lparr>urlParses := urlParses s @ [cfgOllamaHost env]\<rparr>) k = Inr res) \<longrightarrow>
          report (snd (walkFn env s path (Some (File nm)) None))
            = report s @ map
                (\<lambda>k. ''## '' @ path @ '' (chunk '' @ itoa (Suc k) @ ''/''
                        @ itoa (length (matched nodeType root)) @ '')''
                        @ [CHR 0x0A, CHR 0x0A]
                        @ projr (outcome env client path (Ext path)
                                   (map (spanText src) (matched nodeType root))
                                   (s\<lparr>urlParses := urlParses s @ [cfgOllamaHost env]\<rparr>) k)
                        @ [CHR 0x0A, CHR 0x0A] @ ''---'' @ [CHR 0x0A])
                [0 ..< length (matched nodeType root)])"
proof -
  let ?chunks = "map (spanText src) (matched nodeType root)"
  let ?N = "length (matched nodeType root)"
  let ?s1 = "s\<lparr>urlParses := urlParses s @ [cfgOllamaHost env]\<rparr>"
  let ?o = "outcome env client path (Ext path) ?chunks ?s1"
  let ?sec = "\<lambda>k res. ''## '' @ path @ '' (chunk '' @ itoa (Suc k) @ ''/'' @ itoa ?N @ '')''
                @ [CHR 0x0A, CHR 0x0A] @ res @ [CHR 0x0A, CHR 0x0A] @ ''---'' @ [CHR 0x0A]"
  have ex: "extractFunctions (parse env) src lang nodeType = Inr ?chunks"
    by (rule extractFunctions_wf [OF assms(3,4)])
  have so: "sorted (map startByte (matched nodeType root))"
    by (rule matched_sorted [OF assms(4)])
  have oc: "\<forall>k<?N. ?o k
      = fst (reviewChunk env client (cfgModel env) (cfgGuideline env)
               (TrimPrefix (Ext path) ''.'') (spanText src (matched nodeType root ! k))
               (stateBefore env client path (Ext path) ?chunks ?s1 k))"
    by (simp add: outcome_def)
  have rep: "report (snd (walkFn env s path (Some (File nm)) None))
      = report s @ concat (map (\<lambda>k. case ?o k of Inl err \<Rightarrow> [] | Inr res \<Rightarrow> [?sec k res])
                             [0 ..< ?N])"
    using walkFn_file_report(1) [OF assms(1,2) ex assms(5), where s = s and nm = nm]
    by (simp cong: sum.case_cong)
  have lg: "logs (snd (walkFn env s path (Some (File nm)) None))
      = logs s @ concat (map (\<lambda>k. case ?o k of Inl err \<Rightarrow> [ReviewError path (Suc k) err]
                                   | Inr res \<Rightarrow> [])
                           [0 ..< ?N])"
    using walkFn_file_report(2) [OF assms(1,2) ex assms(5), where s = s and nm = nm] by simp
  have all: "(\<forall>k<?N. \<exists>res. ?o k = Inr res) \<longrightarrow>
      report (snd (walkFn env s path (Some (File nm)) None))
        = report s @ map (\<lambda>k. ?sec k (projr (?o k))) [0 ..< ?N]"
  proof
    assume "\<forall>k<?N. \<exists>res. ?o k = Inr res"
    from concat_all_sections [of ?N ?o ?sec, OF this] rep
    show "report (snd (walkFn env s path (Some (File nm)) None))
        = report s @ map (\<lambda>k. ?sec k (projr (?o k))) [0 ..< ?N]"
      by simp
  qed
  from ex so oc rep lg all show ?thesis by (iprover intro: conjI)
qed

lemma ex_walk: "walk exSrc ''function_definition'' exTree [] = Some [exF, exG, exH]"
  by (simp add: exTree_def exOuter_def exInner_def exLast_def
      exSrc_def exF_def exG_def exH_def slice_def nl_def)

lemma ex_extract:
  "extractFunctions (parse (exEnv excl lst host tf cf)) exSrc Python ''function_definition''
     = Inr [exF, exG, exH]"
  by (simp add: extractFunctions_def exEnv_parse ex_walk)

lemma ex_paths:
  "Join ''.'' ''a.py'' = ''a.py''" "Join ''.'' ''notes.txt'' = ''notes.txt''"
  "Ext ''a.py'' = ''.py''" "Ext ''notes.txt'' = ''.txt''"
  "langConfig ''.py'' = Some (Python, ''function_definition'')" "langConfig ''.txt'' = None"
  by (simp_all add: Join_def Clean_def Ext_def langConfig_def)

lemma ex_itoa: "itoa 1 = ''1''" "itoa 2 = ''2''" "itoa 3 = ''3''" "itoa 12 = ''12''"
  by code_simp+

lemma ex_section_text:
  "fmtSection ''a.py'' 2 3 ''LGTM''
     = ''## a.py (chunk 2/3)'' @ [nl, nl] @ ''LGTM'' @ [nl, nl] @ ''---'' @ [nl]"
  by (simp add: fmtSection_def ex_itoa)

lemmas ex_run = Review_def WalkDir_def walkFn_def reviewChunk_def buildPrompt_def
  exLstat_def exRepo_def exHost_def rootDir_def initState_def TrimPrefix_def Let_def
  never_def firstCall_def secondCall_def ex_paths

lemma ex_env_fields:
  "cfgModel (exEnv excl lst host tf cf) = ''llama3''"
  "cfgExclude (exEnv excl lst host tf cf) = excl"
  "cfgGuideline (exEnv excl lst host tf cf) = ''guidelines.md''"
  "cfgOllamaHost (exEnv excl lst host tf cf) = host"
  "lstat (exEnv excl lst host tf cf) = lst"
  "readFile (exEnv excl lst host tf cf) p =
     (if Ext p = ''.py'' \<or> Ext p = ''.java'' then Inr exSrc else if Ext p = ''.h'' then Inr exHdr
      else Inl ''permission denied'')"
  "urlParse (exEnv excl lst host tf cf) u = (if u = ''http://localhost:11434'' then Inr u
                      else Inl ''missing protocol scheme'')"
  "parseFiles (exEnv excl lst host tf cf) k p = (if tf k then Inl ''no such file or directory'' else Inr ())"
  "execute (exEnv excl lst host tf cf) t [(''lang'', l), (''code'', c)] = Inr (''Review this '' @ l @ '' code: '' @ c)"
  "chat (exEnv excl lst host tf cf) k c m p = (if cf k then ([''LG''], Some ''connection reset'')
                        else ([''LG'', ''TM''], None))"
  "writeFile (exEnv excl lst host tf cf) p d = None"
  by (simp_all add: exEnv_def)

theorem chunk_numbering_counterexample:
  "extractFunctions (parse (exEnv [] (exLstat ''.'' (exRepo ''.'')) exHost never firstCall))
       exSrc Python ''function_definition'' = Inr [exF, exG, exH] \<and>
   report (snd (Review (exEnv [] (exLstat ''.'' (exRepo ''.'')) exHost never firstCall)
                  ''.'' ''review.md''))
     = [fmtSection ''a.py'' 2 3 ''LGTM'', fmtSection ''a.py'' 3 3 ''LGTM'']"
  by (simp add: ex_extract ex_run ex_env_fields numeral_2_eq_2 numeral_3_eq_3)

lemma ex_echo_fields:
  "cfgModel (exEchoEnv excl lst host tf cf) = ''llama3''"
  "cfgExclude (exEchoEnv excl lst host tf cf) = excl"
  "cfgGuideline (exEchoEnv excl lst host tf cf) = ''guidelines.md''"
  "cfgOllamaHost (exEchoEnv excl lst host tf cf) = host"
  "lstat (exEchoEnv excl lst host tf cf) = lst"
  "readFile (exEchoEnv excl lst host tf cf) p =
     (if Ext p = ''.py'' \<or> Ext p = ''.java'' then Inr exSrc else if Ext p = ''.h'' then Inr exHdr
      else Inl ''permission denied'')"
  "parse (exEchoEnv excl lst host tf cf) = parse (exEnv excl lst host tf cf)"
  "urlParse (exEchoEnv excl lst host tf cf) u = (if u = ''http://localhost:11434'' then Inr u
                      else Inl ''missing protocol scheme'')"
  "parseFiles (exEchoEnv excl lst host tf cf) k p = (if tf k then Inl ''no such file or directory'' else Inr ())"
  "execute (exEchoEnv excl lst host tf cf) t [(''lang'', l), (''code'', c)] = Inr (l @ '':'' @ c)"
  "chat (exEchoEnv excl lst host tf cf) k c m p = (if cf k then ([''ok ''], Some ''connection reset'')
                        else ([''ok '', p], None))"
  "writeFile (exEchoEnv excl lst host tf cf) p d = None"
  by (simp_all add: exEchoEnv_def exEnv_def)

lemma ex_matched:
  "matched ''function_definition'' exTree = [exOuter, exInner, exLast]"
  "spanText exSrc exOuter = exF" "spanText exSrc exInner = exG" "spanText exSrc exLast = exH"
  by (simp_all add: matched_def exTree_def exOuter_def exInner_def exLast_def spanText_def
      exSrc_def exF_def exG_def exH_def nl_def)

lemma ex_itoa_Suc:
  "itoa (Suc 0) = ''1''" "itoa (Suc (Suc 0)) = ''2''" "itoa (Suc (Suc (Suc 0))) = ''3''"
  using ex_itoa by (simp_all add: numeral_2_eq_2 numeral_3_eq_3)

lemma ex_echo_outcomes:
  "outcome (exEchoEnv excl lst exHost never secondCall) exHost ''a.py'' ''.py'' [exF, exG, exH]
      (initState\<lparr>urlParses := [exHost]\<rparr>) 0 = Inr (''ok py:'' @ exF)"
  "outcome (exEchoEnv excl lst exHost never secondCall) exHost ''a.py'' ''.py'' [exF, exG, exH]
      (initState\<lparr>urlParses := [exHost]\<rparr>) (Suc 0) = Inl (IOError ''connection reset'')"
  "outcome (exEchoEnv excl lst exHost never secondCall) exHost ''a.py'' ''.py'' [exF, exG, exH]
      (initState\<lparr>urlParses := [exHost]\<rparr>) (Suc (Suc 0)) = Inr (''ok py:'' @ exH)"
  by (simp_all add: outcome_def stateBefore_def reviewChunk_def buildPrompt_def ex_echo_fields
      TrimPrefix_def never_def secondCall_def initState_def Let_def)

lemma ex_echo_outcomes_ok:
  "outcome (exEchoEnv excl lst exHost never never) exHost ''a.py'' ''.py'' [exF, exG, exH]
      (initState\<lparr>urlParses := [exHost]\<rparr>) 0 = Inr (''ok py:'' @ exF)"
  "outcome (exEchoEnv excl lst exHost never never) exHost ''a.py'' ''.py'' [exF, exG, exH]
      (initState\<lparr>urlParses := [exHost]\<rparr>) (Suc 0) = Inr (''ok py:'' @ exG)"
  "outcome (exEchoEnv excl lst exHost never never) exHost ''a.py'' ''.py'' [exF, exG, exH]
      (initState\<lparr>urlParses := [exHost]\<rparr>) (Suc (Suc 0)) = Inr (''ok py:'' @ exH)"
  by (simp_all add: outcome_def stateBefore_def reviewChunk_def buildPrompt_def ex_echo_fields
      TrimPrefix_def never_def initState_def Let_def)

lemma ex_init:
  "report initState = []" "logs initState = []" "urlParses initState = []"
  "writes initState = []" "walkErrs initState = []"
  by (simp_all add: initState_def)

lemma upt_3: "[0 ..< Suc (Suc (Suc 0))] = [0, Suc 0, Suc (Suc 0)]"
  by (simp add: upt_rec)

theorem chunk_numbering_witness:
  "langConfig (Ext ''a.py'') = Some (Python, ''function_definition'') \<and>
   readFile (exEchoEnv [] (exLstat ''.'' (exRepo ''.'')) exHost never secondCall) ''a.py''
     = Inr exSrc \<and>
   parse (exEchoEnv [] (exLstat ''.'' (exRepo ''.'')) exHost never secondCall) Python exSrc
     = Inr exTree \<and>
   wfTree exSrc exTree \<and>
   urlParse (exEchoEnv [] (exLstat ''.'' (exRepo ''.'')) exHost never secondCall)
     (cfgOllamaHost (exEchoEnv [] (exLstat ''.'' (exRepo ''.'')) exHost never secondCall))
     = Inr exHost \<and>
   extractFunctions (parse (exEchoEnv [] (exLstat ''.'' (exRepo ''.'')) exHost never secondCall))
       exSrc Python ''function_definition'' = Inr [exF, exG, exH] \<and>
   Suc 0 < length (matched ''function_definition'' exTree) \<and>
   spanText exSrc (matched ''function_definition'' exTree ! Suc 0) = exG \<and>
   fst (reviewChunk (exEchoEnv [] (exLstat ''.'' (exRepo ''.'')) exHost never secondCall) exHost
          ''llama3'' ''guidelines.md'' ''py'' exG
          (stateBefore (exEchoEnv [] (exLstat ''.'' (exRepo ''.'')) exHost never secondCall)
             exHost ''a.py'' ''.py'' [exF, exG, exH] (initState\<lparr>urlParses := [exHost]\<rparr>) (Suc 0)))
     = Inl (IOError ''connection reset'') \<and>
   report (snd (walkFn (exEchoEnv [] (exLstat ''.'' (exRepo ''.'')) exHost never secondCall)
                  initState ''a.py'' (Some (File ''a.py'')) None))
     = [''## a.py (chunk 1/3)'' @ [CHR 0x0A, CHR 0x0A] @ ''ok py:'' @ exF
          @ [CHR 0x0A, CHR 0x0A] @ ''---'' @ [CHR 0x0A],
        ''## a.py (chunk 3/3)'' @ [CHR 0x0A, CHR 0x0A] @ ''ok py:'' @ exH
          @ [CHR 0x0A, CHR 0x0A] @ ''---'' @ [CHR 0x0A]] \<and>
   logs (snd (walkFn (exEchoEnv [] (exLstat ''.'' (exRepo ''.'')) exHost never secondCall)
                initState ''a.py'' (Some (File ''a.py'')) None))
     = [ReviewError ''a.py'' 2 (IOError ''connection reset'')] \<and>
   outcome (exEchoEnv [] (exLstat ''.'' (exRepo ''.'')) exHost never never) exHost
       ''a.py'' ''.py'' [exF, exG, exH] (initState\<lparr>urlParses := [exHost]\<rparr>) 0
     = Inr (''ok py:'' @ exF) \<and>
   outcome (exEchoEnv [] (exLstat ''.'' (exRepo ''.'')) exHost never never) exHost
       ''a.py'' ''.py'' [exF, exG, exH] (initState\<lparr>urlParses := [exHost]\<rparr>) (Suc 0)
     = Inr (''ok py:'' @ exG) \<and>
   outcome (exEchoEnv [] (exLstat ''.'' (exRepo ''.'')) exHost never never) exHost
       ''a.py'' ''.py'' [exF, exG, exH] (initState\<lparr>urlParses := [exHost]\<rparr>) (Suc (Suc 0))
     = Inr (''ok py:'' @ exH) \<and>
   report (snd (walkFn (exEchoEnv [] (exLstat ''.'' (exRepo ''.'')) exHost never never)
                  initState ''a.py'' (Some (File ''a.py'')) None))
     = [''## a.py (chunk 1/3)'' @ [CHR 0x0A, CHR 0x0A] @ ''ok py:'' @ exF
          @ [CHR 0x0A, CHR 0x0A] @ ''---'' @ [CHR 0x0A],
        ''## a.py (chunk 2/3)'' @ [CHR 0x0A, CHR 0x0A] @ ''ok py:'' @ exG
          @ [CHR 0x0A, CHR 0x0A] @ ''---'' @ [CHR 0x0A],
        ''## a.py (chunk 3/3)'' @ [CHR 0x0A, CHR 0x0A] @ ''ok py:'' @ exH
          @ [CHR 0x0A, CHR 0x0A] @ ''---'' @ [CHR 0x0A]]"
proof -
  let ?E = "exEchoEnv [] (exLstat ''.'' (exRepo ''.'')) exHost never secondCall"
  let ?G = "exEchoEnv [] (exLstat ''.'' (exRepo ''.'')) exHost never never"
  have h1: "langConfig (Ext ''a.py'') = Some (Python, ''function_definition'')"
    by (simp add: ex_paths)
  have h2: "readFile ?E ''a.py'' = Inr exSrc" "readFile ?G ''a.py'' = Inr exSrc"
    by (simp_all add: ex_echo_fields ex_paths)
  have h3: "parse ?E Python exSrc = Inr exTree" "parse ?G Python exSrc = Inr exTree"
    by (simp_all add: ex_echo_fields exEnv_parse)
  have h5: "urlParse ?E (cfgOllamaHost ?E) = Inr exHost" "urlParse ?G (cfgOllamaHost ?G) = Inr exHost"
    by (simp_all add: ex_echo_fields exHost_def)
  note t = chunk_numbering [OF h1 h2(1) h3(1) exTree_wf h5(1), where s = initState
      and nm = "''a.py''"]
  note g = chunk_numbering [OF h1 h2(2) h3(2) exTree_wf h5(2), where s = initState
      and nm = "''a.py''"]
  from t [THEN conjunct1] have c1: "extractFunctions (parse ?E) exSrc Python ''function_definition''
      = Inr [exF, exG, exH]"
    by (simp add: ex_matched)
  have k: "Suc 0 < length (matched ''function_definition'' exTree)"
    by (simp add: ex_matched)
  have ck: "spanText exSrc (matched ''function_definition'' exTree ! Suc 0) = exG"
    by (simp add: ex_matched)
  from t [THEN conjunct2, THEN conjunct2, THEN conjunct1, rule_format, OF k]
  have c2: "fst (reviewChunk ?E exHost ''llama3'' ''guidelines.md'' ''py'' exG
          (stateBefore ?E exHost ''a.py'' ''.py'' [exF, exG, exH] (initState\<lparr>urlParses := [exHost]\<rparr>)
             (Suc 0)))
     = Inl (IOError ''connection reset'')"
    by (simp add: ex_matched ex_echo_outcomes ex_paths ex_echo_fields ex_init TrimPrefix_def)
  from t [THEN conjunct2, THEN conjunct2, THEN conjunct2, THEN conjunct1]
  have c3: "report (snd (walkFn ?E initState ''a.py'' (Some (File ''a.py'')) None))
     = [''## a.py (chunk 1/3)'' @ [CHR 0x0A, CHR 0x0A] @ ''ok py:'' @ exF
          @ [CHR 0x0A, CHR 0x0A] @ ''---'' @ [CHR 0x0A],
        ''## a.py (chunk 3/3)'' @ [CHR 0x0A, CHR 0x0A] @ ''ok py:'' @ exH
          @ [CHR 0x0A, CHR 0x0A] @ ''---'' @ [CHR 0x0A]]"
    by (simp add: ex_matched ex_echo_outcomes ex_paths ex_echo_fields ex_init ex_itoa_Suc upt_3
        del: upt_Suc)
  from t [THEN conjunct2, THEN conjunct2, THEN conjunct2, THEN conjunct2, THEN conjunct1]
  have c4: "logs (snd (walkFn ?E initState ''a.py'' (Some (File ''a.py'')) None))
     = [ReviewError ''a.py'' 2 (IOError ''connection reset'')]"
    by (simp add: ex_matched ex_echo_outcomes ex_paths ex_echo_fields ex_init upt_3
        numeral_2_eq_2 del: upt_Suc)
  have a: "\<forall>k<length (matched ''function_definition'' exTree).
      \<exists>res. outcome ?G exHost ''a.py'' (Ext ''a.py'')
               (map (spanText exSrc) (matched ''function_definition'' exTree))
               (initState\<lparr>urlParses := urlParses initState @ [cfgOllamaHost ?G]\<rparr>) k = Inr res"
    by (simp add: ex_matched ex_echo_outcomes_ok ex_paths ex_echo_fields ex_init
        less_Suc_eq)
  from g [THEN conjunct2, THEN conjunct2, THEN conjunct2, THEN conjunct2, THEN conjunct2,
      THEN mp, OF a]
  have c5: "report (snd (walkFn ?G initState ''a.py'' (Some (File ''a.py'')) None))
     = [''## a.py (chunk 1/3)'' @ [CHR 0x0A, CHR 0x0A] @ ''ok py:'' @ exF
          @ [CHR 0x0A, CHR 0x0A] @ ''---'' @ [CHR 0x0A],
        ''## a.py (chunk 2/3)'' @ [CHR 0x0A, CHR 0x0A] @ ''ok py:'' @ exG
          @ [CHR 0x0A, CHR 0x0A] @ ''---'' @ [CHR 0x0A],
        ''## a.py (chunk 3/3)'' @ [CHR 0x0A, CHR 0x0A] @ ''ok py:'' @ exH
          @ [CHR 0x0A, CHR 0x0A] @ ''---'' @ [CHR 0x0A]]"
    by (simp add: ex_matched ex_echo_outcomes_ok ex_paths ex_echo_fields ex_init ex_itoa_Suc upt_3
        del: upt_Suc)
  note o = ex_echo_outcomes_ok [of "[]" "exLstat ''.'' (exRepo ''.'')"]
  from h1 h2(1) h3(1) exTree_wf h5(1) c1 k ck c2 c3 c4 o c5
  show ?thesis by (iprover intro: conjI)
qed






text \<open>
  C7: a file whose extension is not in the registry, and a file that is read and parsed
  but yields no chunk, leave the run state as it was (nothing logged, nothing reported)
  and return no error; the walk then goes on with the remaining entries of the directory
  from the same state.
\<close>

theorem unregistered_or_empty_file_skipped:
  "(langConfig (Ext path) = None \<longrightarrow> walkFn env s path (Some (File nm)) None = (None, s)) \<and>
   (langConfig (Ext path') = Some (lang, nodeType) \<and> readFile env path' = Inr src \<and>
    extractFunctions (parse env) src lang nodeType = Inr []
    \<longrightarrow> walkFn env s path' (Some (File nm')) None = (None, s)) \<and>
   (walkFn env s (Join dir name) (Some (File name)) None = (None, s)
    \<longrightarrow> walkDirs (walkFn env) dir (File name # rest) s = walkDirs (walkFn env) dir rest s)"
  by (simp add: walkFn_file_no_chunks) (simp add: walkFn_def Let_def)

lemma ex_paths_hdr:
  "Join ''.'' ''x.h'' = ''x.h''" "Ext ''x.h'' = ''.h''"
  "langConfig ''.h'' = Some (Cpp, ''function_definition'')"
  by (simp_all add: Join_def Clean_def Ext_def langConfig_def)

lemma ex_extract_hdr:
  "extractFunctions (parse (exEnv excl lst host tf cf)) exHdr Cpp ''function_definition'' = Inr []"
  by (simp add: extractFunctions_def exEnv_def exHdrTree_def exHdr_def slice_def)

theorem unregistered_or_empty_file_skipped_witness:
  "langConfig (Ext ''notes.txt'') = None \<and>
   langConfig (Ext ''x.h'') = Some (Cpp, ''function_definition'') \<and>
   readFile (exEnv [] (exLstat ''.'' exRepoNoCode) exHost never never) ''x.h'' = Inr exHdr \<and>
   extractFunctions (parse (exEnv [] (exLstat ''.'' exRepoNoCode) exHost never never))
       exHdr Cpp ''function_definition'' = Inr [] \<and>
   walkFn (exEnv [] (exLstat ''.'' exRepoNoCode) exHost never never) initState
       (Join ''.'' ''notes.txt'') (Some (File ''notes.txt'')) None = (None, initState) \<and>
   walkFn (exEnv [] (exLstat ''.'' exRepoNoCode) exHost never never) initState ''x.h''
       (Some (File ''x.h'')) None = (None, initState) \<and>
   walkDirs (walkFn (exEnv [] (exLstat ''.'' exRepoNoCode) exHost never never)) ''.''
       (File ''notes.txt'' # [File ''x.h'']) initState
     = walkDirs (walkFn (exEnv [] (exLstat ''.'' exRepoNoCode) exHost never never)) ''.''
         [File ''x.h''] initState"
proof -
  let ?E = "exEnv [] (exLstat ''.'' exRepoNoCode) exHost never never"
  have h1: "langConfig (Ext ''notes.txt'') = None" by (simp add: ex_paths)
  have h2: "langConfig (Ext ''x.h'') = Some (Cpp, ''function_definition'')"
    by (simp add: ex_paths_hdr)
  have h3: "readFile ?E ''x.h'' = Inr exHdr" by (simp add: ex_env_fields ex_paths_hdr)
  have h4: "extractFunctions (parse ?E) exHdr Cpp ''function_definition'' = Inr []"
    by (rule ex_extract_hdr)
  note t = unregistered_or_empty_file_skipped [where env = ?E and s = initState
      and path = "''notes.txt''" and nm = "''notes.txt''" and path' = "''x.h''" and lang = Cpp
      and nodeType = "''function_definition''" and src = exHdr and nm' = "''x.h''"
      and dir = "''.''" and name = "''notes.txt''" and rest = "[File ''x.h'']"]
  from t h1 have c1: "walkFn ?E initState ''notes.txt'' (Some (File ''notes.txt'')) None
      = (None, initState)" by blast
  then have c1': "walkFn ?E initState (Join ''.'' ''notes.txt'') (Some (File ''notes.txt'')) None
      = (None, initState)" by (simp add: ex_paths)
  from t h2 h3 h4 have c2: "walkFn ?E initState ''x.h'' (Some (File ''x.h'')) None = (None, initState)"
    by blast
  from t c1' have c3: "walkDirs (walkFn ?E) ''.'' (File ''notes.txt'' # [File ''x.h'']) initState
     = walkDirs (walkFn ?E) ''.'' [File ''x.h''] initState" by blast
  from h1 h2 h3 h4 c1' c2 c3 show ?thesis by (iprover intro: conjI)
qed

lemma Review_error:
  assumes "WalkDir (lstat env) repoRoot (walkFn env) initState = (Some err, s)"
  shows "Review env repoRoot outFile = (Some err, s)"
  using assms by (simp add: Review_def)

lemma Review_walked:
  assumes "WalkDir (lstat env) repoRoot (walkFn env) initState = (None, s)"
  shows "writes (snd (Review env repoRoot outFile))
           = writes s @ [(outFile, reportTitle @ concat (report s), 420)]"
    and "report (snd (Review env repoRoot outFile)) = report s"
    and "walkErrs (snd (Review env repoRoot outFile)) = walkErrs s"
    and "urlParses (snd (Review env repoRoot outFile)) = urlParses s"
  using assms by (simp_all add: Review_def Let_def split: option.splits)

lemma WalkDir_no_write:
  "writes (snd (WalkDir (lstat env) repoRoot (walkFn env) initState)) = []"
proof -
  obtain r s where w: "WalkDir (lstat env) repoRoot (walkFn env) initState = (r, s)"
    by (cases "WalkDir (lstat env) repoRoot (walkFn env) initState")
  from WalkDir_relErrs [OF w] have "writes s = writes initState" by (simp add: relErrs_def)
  with w show ?thesis by (simp add: initState_def)
qed

lemma walkDir_unreadable:
  assumes "\<not> (name \<in> set (cfgExclude env) \<and> path \<noteq> rootDir)"
  shows "walkDir (walkFn env) path (Dir name (Some m) ds) s
      = (Some (IOError m), s\<lparr>walkErrs := walkErrs s @ [IOError m]\<rparr>)"
  using assms by (simp add: walkFn_def)

lemma walkDir_excluded:
  assumes "name \<in> set (cfgExclude env)" "path \<noteq> rootDir"
  shows "walkDir (walkFn env) path (Dir name re ds) s = (None, s)"
  using assms by (simp add: walkFn_def)

lemma walkFn_read_error:
  assumes "langConfig (Ext path) = Some (lang, nodeType)" "readFile env path = Inl m"
  shows "walkFn env s path (Some (File nm)) None
      = (None, s\<lparr>logs := logs s @ [ReadError path (IOError m)]\<rparr>)"
  using assms by (simp add: walkFn_def Let_def)

lemma walkFn_parse_error:
  assumes "langConfig (Ext path) = Some (lang, nodeType)" "readFile env path = Inr src"
    "parse env lang src = Inl m"
  shows "walkFn env s path (Some (File nm)) None
      = (None, s\<lparr>logs := logs s @ [ParseError path (Wrapped ''parse source'' (IOError m))]\<rparr>)"
  using assms by (simp add: walkFn_def Let_def extractFunctions_def)

text \<open>
  C5: an error that the walk reports to the callback (the root cannot be inspected, a
  directory that is visited cannot be listed) is returned by \<open>Review\<close> as it is, it is the
  only one reported, and no file is written; the entries that follow the failing one in
  its directory are not visited. A file that cannot be read or parsed is logged and the
  callback returns no error for it.
\<close>

theorem traversal_error_aborts_run:
  "(e \<in> set (walkErrs (snd (Review env repoRoot outFile))) \<longrightarrow>
      fst (Review env repoRoot outFile) = Some e \<and>
      writes (snd (Review env repoRoot outFile)) = [] \<and>
      walkErrs (snd (Review env repoRoot outFile)) = [e]) \<and>
   (lstat env repoRoot = Inl m0 \<longrightarrow>
      walkErrs (snd (Review env repoRoot outFile)) = [IOError m0]) \<and>
   (\<not> (name \<in> set (cfgExclude env) \<and> dpath \<noteq> rootDir) \<longrightarrow>
      walkDir (walkFn env) dpath (Dir name (Some m1) ds) s
        = (Some (IOError m1), s\<lparr>walkErrs := walkErrs s @ [IOError m1]\<rparr>)) \<and>
   (walkDir (walkFn env) (Join dir (ename d1)) d1 s = (Some (IOError m4), s4) \<longrightarrow>
      walkDirs (walkFn env) dir (d1 # rest) s = (Some (IOError m4), s4)) \<and>
   (langConfig (Ext path) = Some (lang, nodeType) \<and> readFile env path = Inl m2 \<longrightarrow>
      walkFn env s path (Some (File nm)) None
        = (None, s\<lparr>logs := logs s @ [ReadError path (IOError m2)]\<rparr>)) \<and>
   (langConfig (Ext path') = Some (lang', nodeType') \<and> readFile env path' = Inr src \<and>
    parse env lang' src = Inl m3 \<longrightarrow>
      walkFn env s path' (Some (File nm')) None
        = (None, s\<lparr>logs := logs s @ [ParseError path' (Wrapped ''parse source'' (IOError m3))]\<rparr>))"
proof -
  obtain r s' where w: "WalkDir (lstat env) repoRoot (walkFn env) initState = (r, s')"
    by (cases "WalkDir (lstat env) repoRoot (walkFn env) initState")
  from WalkDir_relErrs [OF w] have wr: "writes s' = []"
    and cases: "walkErrs s' = [] \<or> (\<exists>m. walkErrs s' = [IOError m] \<and> r = Some (IOError m))"
    by (simp_all add: relErrs_def initState_def)
  have a: "e \<in> set (walkErrs (snd (Review env repoRoot outFile))) \<longrightarrow>
      fst (Review env repoRoot outFile) = Some e \<and>
      writes (snd (Review env repoRoot outFile)) = [] \<and>
      walkErrs (snd (Review env repoRoot outFile)) = [e]"
  proof (cases r)
    case None
    from Review_walked(3) [OF w [unfolded None]] cases None show ?thesis by auto
  next
    case (Some err)
    from Review_error [OF w [unfolded Some]] cases wr Some show ?thesis by auto
  qed
  have b: "lstat env repoRoot = Inl m0 \<longrightarrow>
      walkErrs (snd (Review env repoRoot outFile)) = [IOError m0]"
    by (simp add: Review_def WalkDir_def walkFn_def initState_def)
  have c: "\<not> (name \<in> set (cfgExclude env) \<and> dpath \<noteq> rootDir) \<longrightarrow>
      walkDir (walkFn env) dpath (Dir name (Some m1) ds) s
        = (Some (IOError m1), s\<lparr>walkErrs := walkErrs s @ [IOError m1]\<rparr>)"
    using walkDir_unreadable by blast
  have c': "walkDir (walkFn env) (Join dir (ename d1)) d1 s = (Some (IOError m4), s4) \<longrightarrow>
      walkDirs (walkFn env) dir (d1 # rest) s = (Some (IOError m4), s4)"
    by simp
  have d: "langConfig (Ext path) = Some (lang, nodeType) \<and> readFile env path = Inl m2 \<longrightarrow>
      walkFn env s path (Some (File nm)) None
        = (None, s\<lparr>logs := logs s @ [ReadError path (IOError m2)]\<rparr>)"
    using walkFn_read_error by blast
  have e: "langConfig (Ext path') = Some (lang', nodeType') \<and> readFile env path' = Inr src \<and>
    parse env lang' src = Inl m3 \<longrightarrow>
      walkFn env s path' (Some (File nm')) None
        = (None, s\<lparr>logs := logs s @ [ParseError path' (Wrapped ''parse source'' (IOError m3))]\<rparr>)"
    using walkFn_parse_error by blast
  from a b c c' d e show ?thesis by (iprover intro: conjI)
qed

lemma ex_paths_more:
  "Join ''.'' ''locked'' = ''locked''" "Join ''.'' ''z.py'' = ''z.py''"
  "Ext ''main.go'' = ''.go''" "Ext ''A.java'' = ''.java''"
  "langConfig ''.go'' = Some (Golang, ''function_declaration'')"
  "langConfig ''.java'' = Some (Java, ''method_declaration'')"
  by (simp_all add: Join_def Clean_def Ext_def langConfig_def)

lemma ex_locked_run:
  "walkErrs (snd (Review (exEnv [] (exLstat ''.'' exRepoLocked) exHost never never) ''.'' ''review.md''))
     = [IOError ''permission denied'']"
  by (simp add: ex_extract ex_run ex_env_fields exRepoLocked_def ex_paths_more)

theorem traversal_error_aborts_run_witness:
  "IOError ''permission denied''
     \<in> set (walkErrs (snd (Review (exEnv [] (exLstat ''.'' exRepoLocked) exHost never never)
                               ''.'' ''review.md''))) \<and>
   fst (Review (exEnv [] (exLstat ''.'' exRepoLocked) exHost never never) ''.'' ''review.md'')
     = Some (IOError ''permission denied'') \<and>
   writes (snd (Review (exEnv [] (exLstat ''.'' exRepoLocked) exHost never never) ''.'' ''review.md''))
     = [] \<and>
   lstat (exEnv [] (exLstat ''.'' exRepoLocked) exHost never never) ''elsewhere''
     = Inl ''no such file or directory'' \<and>
   walkErrs (snd (Review (exEnv [] (exLstat ''.'' exRepoLocked) exHost never never)
                    ''elsewhere'' ''review.md''))
     = [IOError ''no such file or directory''] \<and>
   \<not> (''locked'' \<in> set (cfgExclude (exEnv [] (exLstat ''.'' exRepoLocked) exHost never never)) \<and>
      ''locked'' \<noteq> rootDir) \<and>
   walkDir (walkFn (exEnv [] (exLstat ''.'' exRepoLocked) exHost never never)) ''locked''
       (Dir ''locked'' (Some ''permission denied'') []) initState
     = (Some (IOError ''permission denied''),
        initState\<lparr>walkErrs := walkErrs initState @ [IOError ''permission denied'']\<rparr>) \<and>
   walkDirs (walkFn (exEnv [] (exLstat ''.'' exRepoLocked) exHost never never)) ''.''
       (Dir ''locked'' (Some ''permission denied'') [] # [File ''z.py'']) initState
     = (Some (IOError ''permission denied''),
        initState\<lparr>walkErrs := walkErrs initState @ [IOError ''permission denied'']\<rparr>) \<and>
   langConfig (Ext ''main.go'') = Some (Golang, ''function_declaration'') \<and>
   readFile (exEnv [] (exLstat ''.'' exRepoLocked) exHost never never) ''main.go''
     = Inl ''permission denied'' \<and>
   walkFn (exEnv [] (exLstat ''.'' exRepoLocked) exHost never never) initState ''main.go''
       (Some (File ''main.go'')) None
     = (None, initState\<lparr>logs := logs initState @ [ReadError ''main.go'' (IOError ''permission denied'')]\<rparr>) \<and>
   langConfig (Ext ''A.java'') = Some (Java, ''method_declaration'') \<and>
   readFile (exEnv [] (exLstat ''.'' exRepoLocked) exHost never never) ''A.java'' = Inr exSrc \<and>
   parse (exEnv [] (exLstat ''.'' exRepoLocked) exHost never never) Java exSrc
     = Inl ''operation limit was hit'' \<and>
   walkFn (exEnv [] (exLstat ''.'' exRepoLocked) exHost never never) initState ''A.java''
       (Some (File ''A.java'')) None
     = (None, initState\<lparr>logs := logs initState @
          [ParseError ''A.java'' (Wrapped ''parse source'' (IOError ''operation limit was hit''))]\<rparr>)"
proof -
  let ?E = "exEnv [] (exLstat ''.'' exRepoLocked) exHost never never"
  have h1: "IOError ''permission denied'' \<in> set (walkErrs (snd (Review ?E ''.'' ''review.md'')))"
    by (simp add: ex_locked_run)
  have h2: "lstat ?E ''elsewhere'' = Inl ''no such file or directory''"
    by (simp add: ex_env_fields exLstat_def)
  have h3: "\<not> (''locked'' \<in> set (cfgExclude ?E) \<and> ''locked'' \<noteq> rootDir)"
    by (simp add: ex_env_fields)
  have h4: "langConfig (Ext ''main.go'') = Some (Golang, ''function_declaration'')"
    "readFile ?E ''main.go'' = Inl ''permission denied''"
    by (simp_all add: ex_env_fields ex_paths_more)
  have h5: "langConfig (Ext ''A.java'') = Some (Java, ''method_declaration'')"
    "readFile ?E ''A.java'' = Inr exSrc" "parse ?E Java exSrc = Inl ''operation limit was hit''"
    by (simp_all add: ex_env_fields ex_paths_more exEnv_def)
  note t1 = traversal_error_aborts_run [where env = ?E and repoRoot = "''.''"
      and outFile = "''review.md''" and e = "IOError ''permission denied''"
      and name = "''locked''" and dpath = "''locked''" and ?m1.0 = "''permission denied''"
      and ds = "[]" and s = initState
      and path = "''main.go''" and lang = Golang and nodeType = "''function_declaration''"
      and ?m2.0 = "''permission denied''" and nm = "''main.go''"
      and path' = "''A.java''" and lang' = Java and nodeType' = "''method_declaration''"
      and src = exSrc and ?m3.0 = "''operation limit was hit''" and nm' = "''A.java''"
      and dir = "''.''" and ?d1.0 = "Dir ''locked'' (Some ''permission denied'') []"
      and ?m4.0 = "''permission denied''" and rest = "[File ''z.py'']"
      and ?s4.0 = "initState\<lparr>walkErrs := walkErrs initState @ [IOError ''permission denied'']\<rparr>"]
  note t2 = traversal_error_aborts_run [where env = ?E and repoRoot = "''elsewhere''"
      and outFile = "''review.md''" and ?m0.0 = "''no such file or directory''"]
  from t1 h1 have c1: "fst (Review ?E ''.'' ''review.md'') = Some (IOError ''permission denied'')"
    "writes (snd (Review ?E ''.'' ''review.md'')) = []" by blast+
  from t2 [THEN conjunct2, THEN conjunct1, rule_format, OF h2]
  have c2: "walkErrs (snd (Review ?E ''elsewhere'' ''review.md''))
      = [IOError ''no such file or directory'']" .
  from t1 h3 have c3: "walkDir (walkFn ?E) ''locked'' (Dir ''locked'' (Some ''permission denied'') [])
      initState = (Some (IOError ''permission denied''),
        initState\<lparr>walkErrs := walkErrs initState @ [IOError ''permission denied'']\<rparr>)" by blast
  from c3 have h6: "walkDir (walkFn ?E) (Join ''.'' (ename (Dir ''locked'' (Some ''permission denied'') [])))
      (Dir ''locked'' (Some ''permission denied'') []) initState
      = (Some (IOError ''permission denied''),
        initState\<lparr>walkErrs := walkErrs initState @ [IOError ''permission denied'']\<rparr>)"
    by (simp add: ex_paths_more)
  from t1 h6 have c6: "walkDirs (walkFn ?E) ''.''
       (Dir ''locked'' (Some ''permission denied'') [] # [File ''z.py'']) initState
     = (Some (IOError ''permission denied''),
        initState\<lparr>walkErrs := walkErrs initState @ [IOError ''permission denied'']\<rparr>)"
    by blast
  from t1 h4 have c4: "walkFn ?E initState ''main.go'' (Some (File ''main.go'')) None
     = (None, initState\<lparr>logs := logs initState @ [ReadError ''main.go'' (IOError ''permission denied'')]\<rparr>)"
    by blast
  from t1 h5 have c5: "walkFn ?E initState ''A.java'' (Some (File ''A.java'')) None
     = (None, initState\<lparr>logs := logs initState @
          [ParseError ''A.java'' (Wrapped ''parse source'' (IOError ''operation limit was hit''))]\<rparr>)"
    by blast
  from h1 c1 h2 c2 h3 c3 c6 h4 c4 h5 c5 show ?thesis by (iprover intro: conjI)
qed

lemma walkFn_url_error:
  assumes "langConfig (Ext path) = Some (lang, nodeType)" "readFile env path = Inr src"
    "extractFunctions (parse env) src lang nodeType = Inr chunks" "chunks \<noteq> []"
    "urlParse env (cfgOllamaHost env) = Inl m"
  shows "walkFn env s path (Some (File nm)) None
      = (Some (Wrapped ''parse OLLAMA_HOST'' (IOError m)),
         s\<lparr>urlParses := urlParses s @ [cfgOllamaHost env]\<rparr>)"
  using assms by (simp add: walkFn_def Let_def)

lemma ensureModel_url_error:
  assumes "urlParse env (cfgOllamaHost env) = Inl m"
  shows "ensureModel env c s
     = (Some (if cfgModel env = [] then Failure ''model is not specified''
              else Wrapped ''parse OllamaHost'' (IOError m)), s)"
  using assms by (simp add: ensureModel_def)

lemma Review_url_error:
  assumes "urlParse env (cfgOllamaHost env) = Inl m"
    and "urlParses (snd (Review env repoRoot outFile)) \<noteq> []"
  shows "fst (Review env repoRoot outFile) = Some (Wrapped ''parse OLLAMA_HOST'' (IOError m))"
    "writes (snd (Review env repoRoot outFile)) = []"
proof -
  obtain r s' where w: "WalkDir (lstat env) repoRoot (walkFn env) initState = (r, s')"
    by (cases "WalkDir (lstat env) repoRoot (walkFn env) initState")
  from WalkDir_relUrl [OF assms(1) w]
  have cases: "urlParses s' = [] \<or> r = Some (Wrapped ''parse OLLAMA_HOST'' (IOError m))"
    by (simp add: relUrl_def initState_def)
  from WalkDir_no_write [of env repoRoot] w have wr: "writes s' = []" by simp
  have "fst (Review env repoRoot outFile) = Some (Wrapped ''parse OLLAMA_HOST'' (IOError m)) \<and>
        writes (snd (Review env repoRoot outFile)) = []"
  proof (cases r)
    case None
    from Review_walked(4) [OF w [unfolded None]] cases None assms(2) show ?thesis by auto
  next
    case (Some err)
    from Review_error [OF w [unfolded Some]] cases wr Some assms(2) show ?thesis by auto
  qed
  then show "fst (Review env repoRoot outFile) = Some (Wrapped ''parse OLLAMA_HOST'' (IOError m))"
    "writes (snd (Review env repoRoot outFile)) = []" by simp_all
qed

text \<open>
  C9: the command calls \<open>ensureModel\<close> before \<open>Review\<close>, and \<open>ensureModel\<close> parses the
  configured endpoint right after its test that a model is named. With an endpoint that does
  not parse the command therefore ends with an error, the one of the parse when a model is
  named, before \<open>Review\<close> is called: nothing is written, no file is reviewed, no request is
  sent. \<open>Review\<close> parses the same configuration value itself, in the callback, for every file
  that yields a chunk: there too the callback returns the wrapped error without reviewing
  the file, and a run of \<open>Review\<close> that has parsed the endpoint returns that error and writes
  nothing.
\<close>

theorem malformed_endpoint_is_fatal:
  assumes "urlParse env (cfgOllamaHost env) = Inl m"
  shows "fst (runCmd env c) \<noteq> None \<and>
         writes (snd (runCmd env c)) = [] \<and>
         report (snd (runCmd env c)) = [] \<and>
         chatCalls (snd (runCmd env c)) = [] \<and>
         snd (runCmd env c) = initState \<and>
         (cfgModel env \<noteq> [] \<longrightarrow>
            fst (runCmd env c) = Some (Wrapped ''parse OllamaHost'' (IOError m))) \<and>
         (cfgModel env = [] \<longrightarrow>
            fst (runCmd env c) = Some (Failure ''model is not specified'')) \<and>
         (urlParses (snd (Review env repoRoot outFile)) \<noteq> [] \<longrightarrow>
            fst (Review env repoRoot outFile) = Some (Wrapped ''parse OLLAMA_HOST'' (IOError m)) \<and>
            writes (snd (Review env repoRoot outFile)) = []) \<and>
         (langConfig (Ext path) = Some (lang, nodeType) \<and> readFile env path = Inr src \<and>
          extractFunctions (parse env) src lang nodeType = Inr chunks \<and> chunks \<noteq> [] \<longrightarrow>
            walkFn env s path (Some (File nm)) None
              = (Some (Wrapped ''parse OLLAMA_HOST'' (IOError m)),
                 s\<lparr>urlParses := urlParses s @ [cfgOllamaHost env]\<rparr>))"
proof -
  have run: "runCmd env c
      = (Some (if cfgModel env = [] then Failure ''model is not specified''
               else Wrapped ''parse OllamaHost'' (IOError m)), initState)"
    by (simp add: runCmd_def ensureModel_url_error [OF assms])
  have a1: "fst (runCmd env c) \<noteq> None" by (simp add: run)
  have a2: "writes (snd (runCmd env c)) = []" by (simp add: run initState_def)
  have a3: "report (snd (runCmd env c)) = []" by (simp add: run initState_def)
  have a4: "chatCalls (snd (runCmd env c)) = []" by (simp add: run initState_def)
  have a5: "snd (runCmd env c) = initState" by (simp add: run)
  have a6: "cfgModel env \<noteq> [] \<longrightarrow>
      fst (runCmd env c) = Some (Wrapped ''parse OllamaHost'' (IOError m))"
    by (simp add: run)
  have a7: "cfgModel env = [] \<longrightarrow> fst (runCmd env c) = Some (Failure ''model is not specified'')"
    by (simp add: run)
  have a8: "urlParses (snd (Review env repoRoot outFile)) \<noteq> [] \<longrightarrow>
            fst (Review env repoRoot outFile) = Some (Wrapped ''parse OLLAMA_HOST'' (IOError m)) \<and>
            writes (snd (Review env repoRoot outFile)) = []"
    using Review_url_error [OF assms] by blast
  have a9: "langConfig (Ext path) = Some (lang, nodeType) \<and> readFile env path = Inr src \<and>
          extractFunctions (parse env) src lang nodeType = Inr chunks \<and> chunks \<noteq> [] \<longrightarrow>
            walkFn env s path (Some (File nm)) None
              = (Some (Wrapped ''parse OLLAMA_HOST'' (IOError m)),
                 s\<lparr>urlParses := urlParses s @ [cfgOllamaHost env]\<rparr>)"
    using walkFn_url_error [OF _ _ _ _ assms] by blast
  from a1 a2 a3 a4 a5 a6 a7 a8 a9 show ?thesis by (iprover intro: conjI)
qed

lemma ex_bad_host:
  "urlParse (exEnv excl lst '':bad'' tf cf) (cfgOllamaHost (exEnv excl lst '':bad'' tf cf))
     = Inl ''missing protocol scheme''"
  by (simp add: ex_env_fields)

lemma ex_bad_host_run:
  "urlParses (snd (Review (exEnv [] (exLstat ''.'' (exRepo ''.'')) '':bad'' never never)
                     ''.'' ''review.md'')) = ['':bad'']"
  by (simp add: ex_extract ex_run ex_env_fields)

lemma ex_no_model:
  "urlParse ((exEnv excl lst '':bad'' tf cf)\<lparr>cfgModel := []\<rparr>)
       (cfgOllamaHost ((exEnv excl lst '':bad'' tf cf)\<lparr>cfgModel := []\<rparr>))
     = Inl ''missing protocol scheme''"
  "cfgModel ((exEnv excl lst '':bad'' tf cf)\<lparr>cfgModel := []\<rparr>) = []"
  by (simp_all add: exEnv_def)

lemma ex_cli_run:
  "runCmd (exEnv [] (exLstat ''.'' (exRepo ''.'')) exHost never never) exCli
     = (case Review (exEnv [] (exLstat ''.'' (exRepo ''.'')) exHost never never) ''.'' ''review.md''
        of (r, s) \<Rightarrow> (r, s))"
  by (simp add: runCmd_def ensureModel_def exCli_def ex_env_fields exHost_def initState_def
      split: prod.splits)

theorem malformed_endpoint_is_fatal_witness:
  "urlParse (exEnv [] (exLstat ''.'' (exRepo ''.'')) '':bad'' never never)
       (cfgOllamaHost (exEnv [] (exLstat ''.'' (exRepo ''.'')) '':bad'' never never))
     = Inl ''missing protocol scheme'' \<and>
   cfgModel (exEnv [] (exLstat ''.'' (exRepo ''.'')) '':bad'' never never) \<noteq> [] \<and>
   runCmd (exEnv [] (exLstat ''.'' (exRepo ''.'')) '':bad'' never never) exCli
     = (Some (Wrapped ''parse OllamaHost'' (IOError ''missing protocol scheme'')), initState) \<and>
   writes (snd (runCmd (exEnv [] (exLstat ''.'' (exRepo ''.'')) '':bad'' never never) exCli)) = [] \<and>
   cfgModel ((exEnv [] (exLstat ''.'' (exRepo ''.'')) '':bad'' never never)\<lparr>cfgModel := []\<rparr>) = [] \<and>
   runCmd ((exEnv [] (exLstat ''.'' (exRepo ''.'')) '':bad'' never never)\<lparr>cfgModel := []\<rparr>) exCli
     = (Some (Failure ''model is not specified''), initState) \<and>
   urlParses (snd (Review (exEnv [] (exLstat ''.'' (exRepo ''.'')) '':bad'' never never)
                     ''.'' ''review.md'')) \<noteq> [] \<and>
   fst (Review (exEnv [] (exLstat ''.'' (exRepo ''.'')) '':bad'' never never) ''.'' ''review.md'')
     = Some (Wrapped ''parse OLLAMA_HOST'' (IOError ''missing protocol scheme'')) \<and>
   writes (snd (Review (exEnv [] (exLstat ''.'' (exRepo ''.'')) '':bad'' never never)
                  ''.'' ''review.md'')) = [] \<and>
   langConfig (Ext ''a.py'') = Some (Python, ''function_definition'') \<and>
   readFile (exEnv [] (exLstat ''.'' (exRepo ''.'')) '':bad'' never never) ''a.py'' = Inr exSrc \<and>
   extractFunctions (parse (exEnv [] (exLstat ''.'' (exRepo ''.'')) '':bad'' never never))
       exSrc Python ''function_definition'' = Inr [exF, exG, exH] \<and>
   [exF, exG, exH] \<noteq> [] \<and>
   walkFn (exEnv [] (exLstat ''.'' (exRepo ''.'')) '':bad'' never never) initState ''a.py''
       (Some (File ''a.py'')) None
     = (Some (Wrapped ''parse OLLAMA_HOST'' (IOError ''missing protocol scheme'')),
        initState\<lparr>urlParses := urlParses initState
           @ [cfgOllamaHost (exEnv [] (exLstat ''.'' (exRepo ''.'')) '':bad'' never never)]\<rparr>) \<and>
   urlParse (exEnv [] (exLstat ''.'' exRepoNoCode) '':bad'' never never)
       (cfgOllamaHost (exEnv [] (exLstat ''.'' exRepoNoCode) '':bad'' never never))
     = Inl ''missing protocol scheme'' \<and>
   cfgModel (exEnv [] (exLstat ''.'' exRepoNoCode) '':bad'' never never) \<noteq> [] \<and>
   runCmd (exEnv [] (exLstat ''.'' exRepoNoCode) '':bad'' never never) exCli
     = (Some (Wrapped ''parse OllamaHost'' (IOError ''missing protocol scheme'')), initState) \<and>
   writes (snd (runCmd (exEnv [] (exLstat ''.'' exRepoNoCode) '':bad'' never never) exCli)) = [] \<and>
   fst (runCmd (exEnv [] (exLstat ''.'' (exRepo ''.'')) exHost never never) exCli) = None \<and>
   map fst (writes (snd (runCmd (exEnv [] (exLstat ''.'' (exRepo ''.'')) exHost never never) exCli)))
     = [''review.md'']"
proof -
  let ?E = "exEnv [] (exLstat ''.'' (exRepo ''.'')) '':bad'' never never"
  let ?N = "?E\<lparr>cfgModel := []\<rparr>"
  let ?G = "exEnv [] (exLstat ''.'' (exRepo ''.'')) exHost never never"
  have h0: "urlParse ?E (cfgOllamaHost ?E) = Inl ''missing protocol scheme''"
    by (rule ex_bad_host)
  have h0n: "urlParse ?N (cfgOllamaHost ?N) = Inl ''missing protocol scheme''"
    by (rule ex_no_model(1))
  have m1: "cfgModel ?E \<noteq> []" by (simp add: ex_env_fields)
  have m2: "cfgModel ?N = []" by (rule ex_no_model(2))
  have h1: "urlParses (snd (Review ?E ''.'' ''review.md'')) \<noteq> []"
    by (simp add: ex_bad_host_run)
  have h2: "langConfig (Ext ''a.py'') = Some (Python, ''function_definition'')"
    "readFile ?E ''a.py'' = Inr exSrc"
    "extractFunctions (parse ?E) exSrc Python ''function_definition'' = Inr [exF, exG, exH]"
    "[exF, exG, exH] \<noteq> []"
    by (simp_all add: ex_paths ex_env_fields ex_extract)
  from h2 have h2c: "langConfig (Ext ''a.py'') = Some (Python, ''function_definition'') \<and>
    readFile ?E ''a.py'' = Inr exSrc \<and>
    extractFunctions (parse ?E) exSrc Python ''function_definition'' = Inr [exF, exG, exH] \<and>
    [exF, exG, exH] \<noteq> []" by (iprover intro: conjI)
  note t = malformed_endpoint_is_fatal [OF h0, where c = exCli and repoRoot = "''.''"
      and outFile = "''review.md''" and path = "''a.py''" and lang = Python
      and nodeType = "''function_definition''" and src = exSrc and chunks = "[exF, exG, exH]"
      and s = initState and nm = "''a.py''"]
  note n = malformed_endpoint_is_fatal [OF h0n, where c = exCli]
  from t [THEN conjunct2, THEN conjunct2, THEN conjunct2, THEN conjunct2, THEN conjunct1]
    t [THEN conjunct2, THEN conjunct2, THEN conjunct2, THEN conjunct2, THEN conjunct2,
       THEN conjunct1, THEN mp, OF m1]
  have c1: "runCmd ?E exCli
     = (Some (Wrapped ''parse OllamaHost'' (IOError ''missing protocol scheme'')), initState)"
    by (simp add: prod_eq_iff)
  from t [THEN conjunct2, THEN conjunct1]
  have c2: "writes (snd (runCmd ?E exCli)) = []" .
  from n [THEN conjunct2, THEN conjunct2, THEN conjunct2, THEN conjunct2, THEN conjunct1]
    n [THEN conjunct2, THEN conjunct2, THEN conjunct2, THEN conjunct2, THEN conjunct2,
       THEN conjunct2, THEN conjunct1, THEN mp, OF m2]
  have c3: "runCmd ?N exCli = (Some (Failure ''model is not specified''), initState)"
    by (simp add: prod_eq_iff)
  from t [THEN conjunct2, THEN conjunct2, THEN conjunct2, THEN conjunct2, THEN conjunct2,
       THEN conjunct2, THEN conjunct2, THEN conjunct1, THEN mp, OF h1]
  have c4: "fst (Review ?E ''.'' ''review.md'')
      = Some (Wrapped ''parse OLLAMA_HOST'' (IOError ''missing protocol scheme''))"
    "writes (snd (Review ?E ''.'' ''review.md'')) = []" by simp_all
  from t [THEN conjunct2, THEN conjunct2, THEN conjunct2, THEN conjunct2, THEN conjunct2,
       THEN conjunct2, THEN conjunct2, THEN conjunct2, THEN mp, OF h2c]
  have c5: "walkFn ?E initState ''a.py'' (Some (File ''a.py'')) None
     = (Some (Wrapped ''parse OLLAMA_HOST'' (IOError ''missing protocol scheme'')),
        initState\<lparr>urlParses := urlParses initState @ [cfgOllamaHost ?E]\<rparr>)" .
  have c6: "fst (runCmd ?G exCli) = None"
    "map fst (writes (snd (runCmd ?G exCli))) = [''review.md'']"
    unfolding ex_cli_run by (simp_all add: split_def ex_extract ex_run ex_env_fields)
  let ?H = "exEnv [] (exLstat ''.'' exRepoNoCode) '':bad'' never never"
  have h0h: "urlParse ?H (cfgOllamaHost ?H) = Inl ''missing protocol scheme''"
    by (rule ex_bad_host)
  have m3: "cfgModel ?H \<noteq> []" by (simp add: ex_env_fields)
  note e = malformed_endpoint_is_fatal [OF h0h, where c = exCli]
  from e [THEN conjunct2, THEN conjunct2, THEN conjunct2, THEN conjunct2, THEN conjunct1]
    e [THEN conjunct2, THEN conjunct2, THEN conjunct2, THEN conjunct2, THEN conjunct2,
       THEN conjunct1, THEN mp, OF m3]
  have c7: "runCmd ?H exCli
     = (Some (Wrapped ''parse OllamaHost'' (IOError ''missing protocol scheme'')), initState)"
    by (simp add: prod_eq_iff)
  from e [THEN conjunct2, THEN conjunct1]
  have c8: "writes (snd (runCmd ?H exCli)) = []" .
  from h0 m1 c1 c2 m2 c3 h1 c4 h2 c5 h0h m3 c7 c8 c6 show ?thesis by (iprover intro: conjI)
qed

text \<open>
  C10: when \<open>filepath.WalkDir\<close> returns no error, \<open>Review\<close> calls \<open>os.WriteFile\<close> exactly
  once, on the output path, with the title followed by the sections of the report; with
  an empty report the data written is the title alone.
\<close>

theorem report_written_once_after_walk:
  assumes "fst (WalkDir (lstat env) repoRoot (walkFn env) initState) = None"
  shows "writes (snd (Review env repoRoot outFile))
           = [(outFile, reportTitle @ concat (report (snd (Review env repoRoot outFile))), 420)] \<and>
         (report (snd (Review env repoRoot outFile)) = [] \<longrightarrow>
            writes (snd (Review env repoRoot outFile)) = [(outFile, reportTitle, 420)]) \<and>
         reportTitle = ''# Code Review Report'' @ [CHR 0x0A, CHR 0x0A]"
proof -
  obtain s where w: "WalkDir (lstat env) repoRoot (walkFn env) initState = (None, s)"
    using assms by (cases "WalkDir (lstat env) repoRoot (walkFn env) initState") simp
  from WalkDir_no_write [of env repoRoot] w have "writes s = []" by simp
  with Review_walked(1,2) [OF w, of outFile]
  have "writes (snd (Review env repoRoot outFile))
      = [(outFile, reportTitle @ concat (report (snd (Review env repoRoot outFile))), 420)]"
    by simp
  then show ?thesis by (simp add: reportTitle_def nl_def)
qed

lemma ex_no_code_walk:
  "WalkDir (lstat (exEnv [] (exLstat ''.'' exRepoNoCode) exHost never never)) ''.''
       (walkFn (exEnv [] (exLstat ''.'' exRepoNoCode) exHost never never)) initState
     = (None, initState)"
  by (simp add: ex_extract_hdr ex_run ex_env_fields exRepoNoCode_def ex_paths_hdr)

theorem report_written_once_after_walk_witness:
  "fst (WalkDir (lstat (exEnv [] (exLstat ''.'' exRepoNoCode) exHost never never)) ''.''
          (walkFn (exEnv [] (exLstat ''.'' exRepoNoCode) exHost never never)) initState) = None \<and>
   report (snd (Review (exEnv [] (exLstat ''.'' exRepoNoCode) exHost never never)
                  ''.'' ''review.md'')) = [] \<and>
   writes (snd (Review (exEnv [] (exLstat ''.'' exRepoNoCode) exHost never never)
                  ''.'' ''review.md''))
     = [(''review.md'', ''# Code Review Report'' @ [CHR 0x0A, CHR 0x0A], 420)]"
proof -
  let ?E = "exEnv [] (exLstat ''.'' exRepoNoCode) exHost never never"
  have h: "fst (WalkDir (lstat ?E) ''.'' (walkFn ?E) initState) = None"
    by (simp add: ex_no_code_walk)
  have r: "report (snd (Review ?E ''.'' ''review.md'')) = []"
    using Review_walked(2) [OF ex_no_code_walk] by (simp add: initState_def)
  from report_written_once_after_walk [OF h, of "''review.md''"] r
  have "writes (snd (Review ?E ''.'' ''review.md''))
     = [(''review.md'', ''# Code Review Report'' @ [CHR 0x0A, CHR 0x0A], 420)]"
    by simp
  with h r show ?thesis by (iprover intro: conjI)
qed

lemma walkDir_relReport:
  "walkDir (walkFn env) p d s = (r, s') \<Longrightarrow> relReport s r s'"
  "walkDirs (walkFn env) p ds s = (r, s') \<Longrightarrow> relReport s r s'"
proof -
  have cb: "\<And>s p d e r s'. walkFn env s p d e = (r, s') \<Longrightarrow>
      e = None \<or> (\<exists>m. e = Some (IOError m)) \<Longrightarrow> relReport s r s'"
    by (rule walkFn_relReport)
  have seq: "\<And>s s1 r s2. relReport s None s1 \<Longrightarrow> relReport s1 r s2 \<Longrightarrow> relReport s r s2"
    unfolding relReport_def by (metis append.assoc set_append Un_iff)
  have skip: "\<And>s s'. relReport s (Some SkipDir) s' \<Longrightarrow> relReport s None s'"
    by (auto simp: relReport_def)
  have refl: "\<And>s. relReport s None s"
    by (simp add: relReport_def)
  show "walkDir (walkFn env) p d s = (r, s') \<Longrightarrow> relReport s r s'"
    by (rule walkDir_rel(1) [of "walkFn env" relReport, OF cb seq skip refl])
  show "walkDirs (walkFn env) p ds s = (r, s') \<Longrightarrow> relReport s r s'"
    by (rule walkDir_rel(2) [of "walkFn env" relReport, OF cb seq skip refl])
qed

lemma report_grows:
  "\<exists>new. report (snd (walkFn env s p d e)) = report s @ new"
  "\<exists>new. report (snd (walkDir (walkFn env) p d' s)) = report s @ new"
  "\<exists>new. report (snd (walkDirs (walkFn env) p ds s)) = report s @ new"
proof -
  obtain r1 s1 where a: "walkFn env s p d e = (r1, s1)" by (cases "walkFn env s p d e")
  from walkFn_relReport [OF a] a
  show "\<exists>new. report (snd (walkFn env s p d e)) = report s @ new"
    by (auto simp: relReport_def)
  obtain r2 s2 where b: "walkDir (walkFn env) p d' s = (r2, s2)"
    by (cases "walkDir (walkFn env) p d' s")
  from walkDir_relReport(1) [OF b] b
  show "\<exists>new. report (snd (walkDir (walkFn env) p d' s)) = report s @ new"
    by (auto simp: relReport_def)
  obtain r3 s3 where c: "walkDirs (walkFn env) p ds s = (r3, s3)"
    by (cases "walkDirs (walkFn env) p ds s")
  from walkDir_relReport(2) [OF c] c
  show "\<exists>new. report (snd (walkDirs (walkFn env) p ds s)) = report s @ new"
    by (auto simp: relReport_def)
qed

text \<open>
  C6: nothing is written during the walk. When the walk returns no error, \<open>Review\<close> calls
  \<open>os.WriteFile\<close> once, on the output path, with the title followed by the elements of the
  report in the order they were appended; when the walk returns an error nothing is
  written. For a file, the callback appends to the report, in the order of the chunks,
  one section for each chunk whose review returned a text: the heading with the path of
  the file, the number of the chunk and the number of chunks of the file in decimal, the
  text, and the rule. No call of the callback and no part of the walk removes or changes
  what the report held before, and the loop over a directory hands the state left by one
  entry to the next, so the sections of all files are in the report in the order the
  files were visited.
\<close>

theorem report_document_layout:
  "writes (snd (WalkDir (lstat env) repoRoot (walkFn env) initState)) = [] \<and>
   (fst (WalkDir (lstat env) repoRoot (walkFn env) initState) = None \<longrightarrow>
      writes (snd (Review env repoRoot outFile))
        = [(outFile,
            ''# Code Review Report'' @ [CHR 0x0A, CHR 0x0A]
              @ concat (report (snd (WalkDir (lstat env) repoRoot (walkFn env) initState))),
            420)]) \<and>
   (fst (WalkDir (lstat env) repoRoot (walkFn env) initState) \<noteq> None \<longrightarrow>
      writes (snd (Review env repoRoot outFile)) = []) \<and>
   (\<forall>sec\<in>set (report (snd (WalkDir (lstat env) repoRoot (walkFn env) initState))).
      \<exists>path i n res.
        sec = ''## '' @ path @ '' (chunk '' @ itoa i @ ''/'' @ itoa n @ '')''
                @ [CHR 0x0A, CHR 0x0A] @ res @ [CHR 0x0A, CHR 0x0A] @ ''---'' @ [CHR 0x0A] \<and>
        1 \<le> i \<and> i \<le> n) \<and>
   (langConfig (Ext fpath) = Some (lang, nodeType) \<and> readFile env fpath = Inr src \<and>
    extractFunctions (parse env) src lang nodeType = Inr chunks \<and>
    urlParse env (cfgOllamaHost env) = Inr client \<longrightarrow>
      report (snd (walkFn env s fpath (Some (File nm)) None))
        = report s @ concat (map
            (\<lambda>k. case fst (reviewChunk env client (cfgModel env) (cfgGuideline env)
                             (TrimPrefix (Ext fpath) ''.'') (chunks ! k)
                             (stateBefore env client fpath (Ext fpath) chunks
                                (s\<lparr>urlParses := urlParses s @ [cfgOllamaHost env]\<rparr>) k)) of
                   Inl err \<Rightarrow> []
                 | Inr res \<Rightarrow>
                     [''## '' @ fpath @ '' (chunk '' @ itoa (Suc k) @ ''/''
                        @ itoa (length chunks) @ '')'' @ [CHR 0x0A, CHR 0x0A] @ res
                        @ [CHR 0x0A, CHR 0x0A] @ ''---'' @ [CHR 0x0A]])
            [0 ..< length chunks])) \<and>
   (\<exists>new. report (snd (walkFn env s p d e)) = report s @ new) \<and>
   (\<exists>new. report (snd (walkDir (walkFn env) p d' s)) = report s @ new) \<and>
   (\<exists>new. report (snd (walkDirs (walkFn env) dir ds s)) = report s @ new) \<and>
   (walkDir (walkFn env) (Join dir (ename d1)) d1 s = (None, s1) \<longrightarrow>
      walkDirs (walkFn env) dir (d1 # rest) s = walkDirs (walkFn env) dir rest s1) \<and>
   decimalValue (itoa n) = n \<and> set (itoa n) \<subseteq> set ''0123456789''"
proof -
  obtain r s' where w: "WalkDir (lstat env) repoRoot (walkFn env) initState = (r, s')"
    by (cases "WalkDir (lstat env) repoRoot (walkFn env) initState")
  from WalkDir_no_write [of env repoRoot] w have wr: "writes s' = []" by simp
  have a: "writes (snd (WalkDir (lstat env) repoRoot (walkFn env) initState)) = []"
    by (rule WalkDir_no_write)
  have b: "fst (WalkDir (lstat env) repoRoot (walkFn env) initState) = None \<longrightarrow>
      writes (snd (Review env repoRoot outFile))
        = [(outFile,
            ''# Code Review Report'' @ [CHR 0x0A, CHR 0x0A]
              @ concat (report (snd (WalkDir (lstat env) repoRoot (walkFn env) initState))),
            420)]"
  proof
    assume "fst (WalkDir (lstat env) repoRoot (walkFn env) initState) = None"
    with w have w': "WalkDir (lstat env) repoRoot (walkFn env) initState = (None, s')" by simp
    from Review_walked(1) [OF w', of outFile] wr w'
    show "writes (snd (Review env repoRoot outFile))
        = [(outFile,
            ''# Code Review Report'' @ [CHR 0x0A, CHR 0x0A]
              @ concat (report (snd (WalkDir (lstat env) repoRoot (walkFn env) initState))),
            420)]"
      by (simp add: reportTitle_def nl_def)
  qed
  have c: "fst (WalkDir (lstat env) repoRoot (walkFn env) initState) \<noteq> None \<longrightarrow>
      writes (snd (Review env repoRoot outFile)) = []"
  proof
    assume "fst (WalkDir (lstat env) repoRoot (walkFn env) initState) \<noteq> None"
    with w obtain err where w': "WalkDir (lstat env) repoRoot (walkFn env) initState = (Some err, s')"
      by (cases r) auto
    from Review_error [OF w', of outFile] wr
    show "writes (snd (Review env repoRoot outFile)) = []" by simp
  qed
  have d: "\<forall>sec\<in>set (report (snd (WalkDir (lstat env) repoRoot (walkFn env) initState))).
      \<exists>path i n res.
        sec = ''## '' @ path @ '' (chunk '' @ itoa i @ ''/'' @ itoa n @ '')''
                @ [CHR 0x0A, CHR 0x0A] @ res @ [CHR 0x0A, CHR 0x0A] @ ''---'' @ [CHR 0x0A] \<and>
        1 \<le> i \<and> i \<le> n"
  proof
    fix sec assume "sec \<in> set (report (snd (WalkDir (lstat env) repoRoot (walkFn env) initState)))"
    with w have m: "sec \<in> set (report s')" by simp
    from WalkDir_relReport [OF w] obtain new where
      "report s' = report initState @ new" "\<forall>sec\<in>set new. isSection sec"
      unfolding relReport_def by blast
    with m have "isSection sec" by (simp add: initState_def)
    then show "\<exists>path i n res.
        sec = ''## '' @ path @ '' (chunk '' @ itoa i @ ''/'' @ itoa n @ '')''
                @ [CHR 0x0A, CHR 0x0A] @ res @ [CHR 0x0A, CHR 0x0A] @ ''---'' @ [CHR 0x0A] \<and>
        1 \<le> i \<and> i \<le> n"
      unfolding isSection_def fmtSection_def nl_def .
  qed
  have e: "langConfig (Ext fpath) = Some (lang, nodeType) \<and> readFile env fpath = Inr src \<and>
    extractFunctions (parse env) src lang nodeType = Inr chunks \<and>
    urlParse env (cfgOllamaHost env) = Inr client \<longrightarrow>
      report (snd (walkFn env s fpath (Some (File nm)) None))
        = report s @ concat (map
            (\<lambda>k. case fst (reviewChunk env client (cfgModel env) (cfgGuideline env)
                             (TrimPrefix (Ext fpath) ''.'') (chunks ! k)
                             (stateBefore env client fpath (Ext fpath) chunks
                                (s\<lparr>urlParses := urlParses s @ [cfgOllamaHost env]\<rparr>) k)) of
                   Inl err \<Rightarrow> []
                 | Inr res \<Rightarrow>
                     [''## '' @ fpath @ '' (chunk '' @ itoa (Suc k) @ ''/''
                        @ itoa (length chunks) @ '')'' @ [CHR 0x0A, CHR 0x0A] @ res
                        @ [CHR 0x0A, CHR 0x0A] @ ''---'' @ [CHR 0x0A]])
            [0 ..< length chunks])"
    using walkFn_file_report(1) [where env = env and path = fpath and s = s and nm = nm]
    unfolding outcome_def by blast
  note f = report_grows(1) [of env s p d e]
  note g = report_grows(2) [of env p d' s]
  note h = report_grows(3) [of env dir ds s]
  have i: "walkDir (walkFn env) (Join dir (ename d1)) d1 s = (None, s1) \<longrightarrow>
      walkDirs (walkFn env) dir (d1 # rest) s = walkDirs (walkFn env) dir rest s1"
    by simp
  have j: "decimalValue (itoa n) = n" by (rule itoa_value)
  have k: "set (itoa n) \<subseteq> set ''0123456789''" by (rule itoa_digits)
  from a b c d e f g h i j k show ?thesis by (iprover intro: conjI)
qed

lemma ex_repo_walk:
  "fst (WalkDir (lstat (exEnv [] (exLstat ''.'' (exRepo ''.'')) exHost never never)) ''.''
          (walkFn (exEnv [] (exLstat ''.'' (exRepo ''.'')) exHost never never)) initState) = None"
  "report (snd (WalkDir (lstat (exEnv [] (exLstat ''.'' (exRepo ''.'')) exHost never never)) ''.''
          (walkFn (exEnv [] (exLstat ''.'' (exRepo ''.'')) exHost never never)) initState))
     = [fmtSection ''a.py'' 1 3 ''LGTM'', fmtSection ''a.py'' 2 3 ''LGTM'',
        fmtSection ''a.py'' 3 3 ''LGTM'']"
  by (simp_all add: ex_extract ex_run ex_env_fields numeral_2_eq_2 numeral_3_eq_3)

lemma ex_locked_walk:
  "fst (WalkDir (lstat (exEnv [] (exLstat ''.'' exRepoLocked) exHost never never)) ''.''
          (walkFn (exEnv [] (exLstat ''.'' exRepoLocked) exHost never never)) initState) \<noteq> None"
  by (simp add: ex_extract ex_run ex_env_fields exRepoLocked_def ex_paths_more)

lemma ex_two_paths:
  "Join ''.'' ''b.py'' = ''b.py''" "Ext ''b.py'' = ''.py''"
  by (simp_all add: Join_def Clean_def Ext_def)

lemma ex_echo_extract:
  "extractFunctions (parse (exEchoEnv excl lst host tf cf)) exSrc Python ''function_definition''
     = Inr [exF, exG, exH]"
  by (simp add: ex_echo_fields ex_extract)

lemmas ex_echo_run = WalkDir_def walkFn_def reviewChunk_def buildPrompt_def
  exLstat_def exHost_def rootDir_def TrimPrefix_def Let_def never_def ex_paths ex_two_paths
  ex_echo_fields ex_extract ex_init fmtSection_def nl_def ex_itoa_Suc

lemma ex_two_walk:
  "fst (WalkDir (lstat (exEchoEnv [] (exLstat ''.'' exRepoTwo) exHost never never)) ''.''
          (walkFn (exEchoEnv [] (exLstat ''.'' exRepoTwo) exHost never never)) initState) = None"
  "report (snd (WalkDir (lstat (exEchoEnv [] (exLstat ''.'' exRepoTwo) exHost never never)) ''.''
          (walkFn (exEchoEnv [] (exLstat ''.'' exRepoTwo) exHost never never)) initState))
     = [''## a.py (chunk 1/3)'' @ [CHR 0x0A, CHR 0x0A] @ ''ok py:'' @ exF
          @ [CHR 0x0A, CHR 0x0A] @ ''---'' @ [CHR 0x0A],
        ''## a.py (chunk 2/3)'' @ [CHR 0x0A, CHR 0x0A] @ ''ok py:'' @ exG
          @ [CHR 0x0A, CHR 0x0A] @ ''---'' @ [CHR 0x0A],
        ''## a.py (chunk 3/3)'' @ [CHR 0x0A, CHR 0x0A] @ ''ok py:'' @ exH
          @ [CHR 0x0A, CHR 0x0A] @ ''---'' @ [CHR 0x0A],
        ''## b.py (chunk 1/3)'' @ [CHR 0x0A, CHR 0x0A] @ ''ok py:'' @ exF
          @ [CHR 0x0A, CHR 0x0A] @ ''---'' @ [CHR 0x0A],
        ''## b.py (chunk 2/3)'' @ [CHR 0x0A, CHR 0x0A] @ ''ok py:'' @ exG
          @ [CHR 0x0A, CHR 0x0A] @ ''---'' @ [CHR 0x0A],
        ''## b.py (chunk 3/3)'' @ [CHR 0x0A, CHR 0x0A] @ ''ok py:'' @ exH
          @ [CHR 0x0A, CHR 0x0A] @ ''---'' @ [CHR 0x0A]]"
  by (simp_all add: ex_echo_run exRepoTwo_def)

lemma ex_two_first:
  "fst (walkDir (walkFn (exEchoEnv [] (exLstat ''.'' exRepoTwo) exHost never never))
          (Join ''.'' (ename (File ''a.py''))) (File ''a.py'') initState) = None"
  by (simp add: ex_echo_run)

theorem report_document_layout_witness:
  "fst (WalkDir (lstat (exEchoEnv [] (exLstat ''.'' exRepoTwo) exHost never never)) ''.''
          (walkFn (exEchoEnv [] (exLstat ''.'' exRepoTwo) exHost never never)) initState) = None \<and>
   writes (snd (Review (exEchoEnv [] (exLstat ''.'' exRepoTwo) exHost never never)
                  ''.'' ''review.md''))
     = [(''review.md'',
         ''# Code Review Report'' @ [CHR 0x0A, CHR 0x0A]
           @ ''## a.py (chunk 1/3)'' @ [CHR 0x0A, CHR 0x0A] @ ''ok py:'' @ exF
           @ [CHR 0x0A, CHR 0x0A] @ ''---'' @ [CHR 0x0A]
           @ ''## a.py (chunk 2/3)'' @ [CHR 0x0A, CHR 0x0A] @ ''ok py:'' @ exG
           @ [CHR 0x0A, CHR 0x0A] @ ''---'' @ [CHR 0x0A]
           @ ''## a.py (chunk 3/3)'' @ [CHR 0x0A, CHR 0x0A] @ ''ok py:'' @ exH
           @ [CHR 0x0A, CHR 0x0A] @ ''---'' @ [CHR 0x0A]
           @ ''## b.py (chunk 1/3)'' @ [CHR 0x0A, CHR 0x0A] @ ''ok py:'' @ exF
           @ [CHR 0x0A, CHR 0x0A] @ ''---'' @ [CHR 0x0A]
           @ ''## b.py (chunk 2/3)'' @ [CHR 0x0A, CHR 0x0A] @ ''ok py:'' @ exG
           @ [CHR 0x0A, CHR 0x0A] @ ''---'' @ [CHR 0x0A]
           @ ''## b.py (chunk 3/3)'' @ [CHR 0x0A, CHR 0x0A] @ ''ok py:'' @ exH
           @ [CHR 0x0A, CHR 0x0A] @ ''---'' @ [CHR 0x0A],
         420)] \<and>
   fst (WalkDir (lstat (exEnv [] (exLstat ''.'' exRepoLocked) exHost never never)) ''.''
          (walkFn (exEnv [] (exLstat ''.'' exRepoLocked) exHost never never)) initState) \<noteq> None \<and>
   writes (snd (Review (exEnv [] (exLstat ''.'' exRepoLocked) exHost never never)
                  ''.'' ''review.md'')) = [] \<and>
   ''## b.py (chunk 2/3)'' @ [CHR 0x0A, CHR 0x0A] @ ''ok py:'' @ exG
       @ [CHR 0x0A, CHR 0x0A] @ ''---'' @ [CHR 0x0A]
     \<in> set (report (snd (WalkDir (lstat (exEchoEnv [] (exLstat ''.'' exRepoTwo) exHost never never))
          ''.'' (walkFn (exEchoEnv [] (exLstat ''.'' exRepoTwo) exHost never never)) initState))) \<and>
   (\<exists>path i n res.
      ''## b.py (chunk 2/3)'' @ [CHR 0x0A, CHR 0x0A] @ ''ok py:'' @ exG
          @ [CHR 0x0A, CHR 0x0A] @ ''---'' @ [CHR 0x0A]
        = ''## '' @ path @ '' (chunk '' @ itoa i @ ''/'' @ itoa n @ '')''
            @ [CHR 0x0A, CHR 0x0A] @ res @ [CHR 0x0A, CHR 0x0A] @ ''---'' @ [CHR 0x0A] \<and>
      1 \<le> i \<and> i \<le> n) \<and>
   langConfig (Ext ''a.py'') = Some (Python, ''function_definition'') \<and>
   readFile (exEchoEnv [] (exLstat ''.'' exRepoTwo) exHost never never) ''a.py'' = Inr exSrc \<and>
   extractFunctions (parse (exEchoEnv [] (exLstat ''.'' exRepoTwo) exHost never never))
       exSrc Python ''function_definition'' = Inr [exF, exG, exH] \<and>
   urlParse (exEchoEnv [] (exLstat ''.'' exRepoTwo) exHost never never)
       (cfgOllamaHost (exEchoEnv [] (exLstat ''.'' exRepoTwo) exHost never never)) = Inr exHost \<and>
   report (snd (walkFn (exEchoEnv [] (exLstat ''.'' exRepoTwo) exHost never never)
                  initState ''a.py'' (Some (File ''a.py'')) None))
     = [''## a.py (chunk 1/3)'' @ [CHR 0x0A, CHR 0x0A] @ ''ok py:'' @ exF
          @ [CHR 0x0A, CHR 0x0A] @ ''---'' @ [CHR 0x0A],
        ''## a.py (chunk 2/3)'' @ [CHR 0x0A, CHR 0x0A] @ ''ok py:'' @ exG
          @ [CHR 0x0A, CHR 0x0A] @ ''---'' @ [CHR 0x0A],
        ''## a.py (chunk 3/3)'' @ [CHR 0x0A, CHR 0x0A] @ ''ok py:'' @ exH
          @ [CHR 0x0A, CHR 0x0A] @ ''---'' @ [CHR 0x0A]] \<and>
   walkDir (walkFn (exEchoEnv [] (exLstat ''.'' exRepoTwo) exHost never never))
       (Join ''.'' (ename (File ''a.py''))) (File ''a.py'') initState
     = (None, snd (walkDir (walkFn (exEchoEnv [] (exLstat ''.'' exRepoTwo) exHost never never))
                     (Join ''.'' (ename (File ''a.py''))) (File ''a.py'') initState)) \<and>
   walkDirs (walkFn (exEchoEnv [] (exLstat ''.'' exRepoTwo) exHost never never)) ''.''
       (File ''a.py'' # [File ''b.py'']) initState
     = walkDirs (walkFn (exEchoEnv [] (exLstat ''.'' exRepoTwo) exHost never never)) ''.''
         [File ''b.py'']
         (snd (walkDir (walkFn (exEchoEnv [] (exLstat ''.'' exRepoTwo) exHost never never))
                 (Join ''.'' (ename (File ''a.py''))) (File ''a.py'') initState)) \<and>
   decimalValue (itoa 12) = 12 \<and> itoa 12 = ''12''"
proof -
  let ?G = "exEchoEnv [] (exLstat ''.'' exRepoTwo) exHost never never"
  let ?L = "exEnv [] (exLstat ''.'' exRepoLocked) exHost never never"
  let ?sA = "snd (walkDir (walkFn ?G) (Join ''.'' (ename (File ''a.py''))) (File ''a.py'') initState)"
  let ?sec = "''## b.py (chunk 2/3)'' @ [CHR 0x0A, CHR 0x0A] @ ''ok py:'' @ exG
       @ [CHR 0x0A, CHR 0x0A] @ ''---'' @ [CHR 0x0A]"
  note t = report_document_layout [where env = ?G and repoRoot = "''.''"
      and outFile = "''review.md''" and fpath = "''a.py''" and lang = Python
      and nodeType = "''function_definition''" and src = exSrc and chunks = "[exF, exG, exH]"
      and client = exHost and s = initState and nm = "''a.py''" and dir = "''.''"
      and ?d1.0 = "File ''a.py''" and ?s1.0 = ?sA and rest = "[File ''b.py'']" and n = 12]
  note l = report_document_layout [where env = ?L and repoRoot = "''.''"
      and outFile = "''review.md''"]
  have h1: "fst (WalkDir (lstat ?G) ''.'' (walkFn ?G) initState) = None"
    by (rule ex_two_walk(1))
  from t [THEN conjunct2, THEN conjunct1, THEN mp, OF h1]
  have c1: "writes (snd (Review ?G ''.'' ''review.md''))
     = [(''review.md'',
         ''# Code Review Report'' @ [CHR 0x0A, CHR 0x0A]
           @ ''## a.py (chunk 1/3)'' @ [CHR 0x0A, CHR 0x0A] @ ''ok py:'' @ exF
           @ [CHR 0x0A, CHR 0x0A] @ ''---'' @ [CHR 0x0A]
           @ ''## a.py (chunk 2/3)'' @ [CHR 0x0A, CHR 0x0A] @ ''ok py:'' @ exG
           @ [CHR 0x0A, CHR 0x0A] @ ''---'' @ [CHR 0x0A]
           @ ''## a.py (chunk 3/3)'' @ [CHR 0x0A, CHR 0x0A] @ ''ok py:'' @ exH
           @ [CHR 0x0A, CHR 0x0A] @ ''---'' @ [CHR 0x0A]
           @ ''## b.py (chunk 1/3)'' @ [CHR 0x0A, CHR 0x0A] @ ''ok py:'' @ exF
           @ [CHR 0x0A, CHR 0x0A] @ ''---'' @ [CHR 0x0A]
           @ ''## b.py (chunk 2/3)'' @ [CHR 0x0A, CHR 0x0A] @ ''ok py:'' @ exG
           @ [CHR 0x0A, CHR 0x0A] @ ''---'' @ [CHR 0x0A]
           @ ''## b.py (chunk 3/3)'' @ [CHR 0x0A, CHR 0x0A] @ ''ok py:'' @ exH
           @ [CHR 0x0A, CHR 0x0A] @ ''---'' @ [CHR 0x0A],
         420)]"
    by (simp add: ex_two_walk(2))
  have h2: "fst (WalkDir (lstat ?L) ''.'' (walkFn ?L) initState) \<noteq> None"
    by (rule ex_locked_walk)
  from l [THEN conjunct2, THEN conjunct2, THEN conjunct1, THEN mp, OF h2]
  have c2: "writes (snd (Review ?L ''.'' ''review.md'')) = []" .
  have h3: "?sec \<in> set (report (snd (WalkDir (lstat ?G) ''.'' (walkFn ?G) initState)))"
    by (simp add: ex_two_walk(2))
  from t [THEN conjunct2, THEN conjunct2, THEN conjunct2, THEN conjunct1, THEN bspec, OF h3]
  have c3: "\<exists>path i n res.
      ?sec = ''## '' @ path @ '' (chunk '' @ itoa i @ ''/'' @ itoa n @ '')''
            @ [CHR 0x0A, CHR 0x0A] @ res @ [CHR 0x0A, CHR 0x0A] @ ''---'' @ [CHR 0x0A] \<and>
      1 \<le> i \<and> i \<le> n" .
  have h4: "langConfig (Ext ''a.py'') = Some (Python, ''function_definition'')"
    "readFile ?G ''a.py'' = Inr exSrc"
    "extractFunctions (parse ?G) exSrc Python ''function_definition'' = Inr [exF, exG, exH]"
    "urlParse ?G (cfgOllamaHost ?G) = Inr exHost"
    by (simp_all add: ex_paths ex_echo_fields ex_extract exHost_def)
  from h4 have h4c: "langConfig (Ext ''a.py'') = Some (Python, ''function_definition'') \<and>
      readFile ?G ''a.py'' = Inr exSrc \<and>
      extractFunctions (parse ?G) exSrc Python ''function_definition'' = Inr [exF, exG, exH] \<and>
      urlParse ?G (cfgOllamaHost ?G) = Inr exHost" by (iprover intro: conjI)
  from t [THEN conjunct2, THEN conjunct2, THEN conjunct2, THEN conjunct2, THEN conjunct1,
      THEN mp, OF h4c]
  have c4: "report (snd (walkFn ?G initState ''a.py'' (Some (File ''a.py'')) None))
     = [''## a.py (chunk 1/3)'' @ [CHR 0x0A, CHR 0x0A] @ ''ok py:'' @ exF
          @ [CHR 0x0A, CHR 0x0A] @ ''---'' @ [CHR 0x0A],
        ''## a.py (chunk 2/3)'' @ [CHR 0x0A, CHR 0x0A] @ ''ok py:'' @ exG
          @ [CHR 0x0A, CHR 0x0A] @ ''---'' @ [CHR 0x0A],
        ''## a.py (chunk 3/3)'' @ [CHR 0x0A, CHR 0x0A] @ ''ok py:'' @ exH
          @ [CHR 0x0A, CHR 0x0A] @ ''---'' @ [CHR 0x0A]]"
    using ex_echo_outcomes_ok [of "[]" "exLstat ''.'' exRepoTwo"]
    by (simp add: outcome_def ex_paths ex_echo_fields ex_init ex_itoa_Suc upt_3
        TrimPrefix_def del: upt_Suc)
  have h5: "walkDir (walkFn ?G) (Join ''.'' (ename (File ''a.py''))) (File ''a.py'') initState
      = (None, ?sA)"
    using ex_two_first by (simp add: prod_eq_iff)
  from t [THEN conjunct2, THEN conjunct2, THEN conjunct2, THEN conjunct2, THEN conjunct2,
      THEN conjunct2, THEN conjunct2, THEN conjunct2, THEN conjunct1, THEN mp, OF h5]
  have c5: "walkDirs (walkFn ?G) ''.'' (File ''a.py'' # [File ''b.py'']) initState
     = walkDirs (walkFn ?G) ''.'' [File ''b.py''] ?sA" .
  from t [THEN conjunct2, THEN conjunct2, THEN conjunct2, THEN conjunct2, THEN conjunct2,
      THEN conjunct2, THEN conjunct2, THEN conjunct2, THEN conjunct2, THEN conjunct1]
  have c6: "decimalValue (itoa 12) = 12" .
  have c7: "itoa 12 = ''12''" by (rule ex_itoa(4))
  from h1 c1 h2 c2 h3 c3 h4 c4 h5 c5 c6 c7 show ?thesis by (iprover intro: conjI)
qed

lemma walkFn_root_dot:
  "walkFn env s ''.'' (Some (Dir name re ds)) None = (None, s)"
  by (simp add: walkFn_def rootDir_def)

lemma ex_vendor_paths:
  "Join ''vendor'' ''a.py'' = ''vendor/a.py''" "Join ''vendor'' ''notes.txt'' = ''vendor/notes.txt''"
  "Ext ''vendor/a.py'' = ''.py''" "Ext ''vendor/notes.txt'' = ''.txt''"
  by (simp_all add: Join_def Clean_def Ext_def)

lemma ex_vendor_not_excluded:
  "report (snd (Review (exEnv [] (exLstat ''vendor'' (exRepo ''vendor'')) exHost never never)
                  ''vendor'' ''review.md''))
     = [fmtSection ''vendor/a.py'' 1 3 ''LGTM'', fmtSection ''vendor/a.py'' 2 3 ''LGTM'',
        fmtSection ''vendor/a.py'' 3 3 ''LGTM'']"
  by (simp add: ex_extract ex_run ex_env_fields ex_vendor_paths numeral_2_eq_2 numeral_3_eq_3)

lemma ex_vendored_paths:
  "Join ''.'' ''vendor'' = ''vendor''"
  by (simp add: Join_def Clean_def)

lemma ex_vendored_run:
  "report (snd (Review (exEnv [''vendor''] (exLstat ''.'' exRepoVendored) exHost never never)
                  ''.'' ''review.md''))
     = [fmtSection ''a.py'' 1 3 ''LGTM'', fmtSection ''a.py'' 2 3 ''LGTM'',
        fmtSection ''a.py'' 3 3 ''LGTM'']"
  by (simp add: ex_extract ex_run ex_env_fields exRepoVendored_def ex_vendored_paths
      numeral_2_eq_2 numeral_3_eq_3)

text \<open>
  C3: the callback exempts a directory from exclusion only when its path is \<open>.\<close>, not when
  it is the root of the walk. For a walk that starts at the directory \<open>vendor\<close>, which holds
  a Python file with three functions, with \<open>vendor\<close> in the exclusion set, the root itself
  is skipped: nothing is reviewed and the report is the title alone.
\<close>

theorem excluded_root_name_skips_repository:
  "Review (exEnv [''vendor''] (exLstat ''vendor'' (exRepo ''vendor'')) exHost never never)
       ''vendor'' ''review.md''
     = (None, initState\<lparr>stdout := [''Review completed: review.md'' @ [nl]],
                        writes := [(''review.md'', reportTitle, 420)]\<rparr>)"
  by (simp add: ex_run ex_env_fields)

end
